theory Spec2Isabelle
  imports Complex_Main "HOL-Library.Word" "HOL-Library.AList" "HOL-Library.Log_Nat"
begin

section \<open>JavaScript values\<close>

text \<open>
  A JavaScript number is an IEEE 754 double: a finite value (a rational here), an
  infinity or NaN. The sign of zero is not represented; none of the modelled
  functions divides by a zero that could be negative for the inputs the theorems are
  about, and every other modelled operation treats \<open>-0\<close> as \<open>0\<close>.
\<close>

datatype number = Fin rat | PInf | NInf | NaN

text \<open>What \<open>JSON.parse\<close> returns, and \<open>undefined\<close> beside it.\<close>

datatype json =
    JNull
  | JBool bool
  | JNum number
  | JStr string
  | JArr "json list"
  | JObj "(string \<times> json) list"

datatype jsval = Undefined | Val json

text \<open>
  Exceptions, each with its \<open>message\<close>. The text of an engine-raised error is the
  one V8 gives.
\<close>

datatype js_error =
    TypeError string
  | RangeError string
  | SyntaxError string
  | Error string

fun error_message :: "js_error \<Rightarrow> string" where
  "error_message (TypeError m) = m"
| "error_message (RangeError m) = m"
| "error_message (SyntaxError m) = m"
| "error_message (Error m) = m"

text \<open>
  Member access \<open>v.k\<close>. Reading a member of \<open>undefined\<close> or \<open>null\<close> throws a
  TypeError. The program reads the members \<open>type\<close>, \<open>session\<close>, \<open>conversation\<close>,
  \<open>error\<close>, \<open>message\<close>, \<open>id\<close> and \<open>event_id\<close> only; none of them is inherited by
  a string, number, boolean or array, so there the result is \<open>undefined\<close>.
\<close>

fun get_prop :: "jsval \<Rightarrow> string \<Rightarrow> js_error + jsval" where
  "get_prop Undefined k =
     Inl (TypeError (''Cannot read properties of undefined (reading '' @ [CHR 0x27] @ k @ [CHR 0x27] @ '')''))"
| "get_prop (Val JNull) k =
     Inl (TypeError (''Cannot read properties of null (reading '' @ [CHR 0x27] @ k @ [CHR 0x27] @ '')''))"
| "get_prop (Val (JObj fs)) k = Inr (case map_of fs k of None \<Rightarrow> Undefined | Some v \<Rightarrow> Val v)"
| "get_prop (Val _) k = Inr Undefined"

text \<open>Truthiness, as \<open>if (v)\<close> and \<open>!v\<close> test it.\<close>

fun truthy :: "jsval \<Rightarrow> bool" where
  "truthy Undefined = False"
| "truthy (Val JNull) = False"
| "truthy (Val (JBool b)) = b"
| "truthy (Val (JNum n)) = (n \<noteq> Fin 0 \<and> n \<noteq> NaN)"
| "truthy (Val (JStr s)) = (s \<noteq> [])"
| "truthy (Val (JArr _)) = True"
| "truthy (Val (JObj _)) = True"

text \<open>Identifiers are strings (\<open>uuidv4()\<close> results); the empty string is falsy.\<close>

type_synonym ident = string

definition truthy_id :: "ident \<Rightarrow> bool" where
  "truthy_id s = (s \<noteq> [])"

text \<open>The code units of the two accented letters of the program's messages.\<close>

definition a_tilde :: char where
  "a_tilde = CHR 0xE3"

definition c_cedilla :: char where
  "c_cedilla = CHR 0xE7"

text \<open>Decimal digits of a natural number, as a template literal renders \<open>Date.now()\<close>.\<close>

fun digits_of :: "nat \<Rightarrow> string" where
  "digits_of n =
     (if n < 10 then [''0123456789'' ! n] else digits_of (n div 10) @ [''0123456789'' ! (n mod 10)])"

section \<open>WebSocket objects\<close>

text \<open>
  A socket of the \<open>ws\<close> library, as far as the program observes it: its
  \<open>readyState\<close>, the frames written to it, and the sessions whose message handler
  was attached to it. Sockets are objects shared between maps, so they live in a
  store and are referred to by handle.
\<close>

datatype ready_state = CONNECTING | OPEN | CLOSING | CLOSED

datatype frame = TextFrame json | PingFrame json

record socket =
  readyState :: ready_state
  sent :: "frame list"
  messageHandlers :: "ident list"

type_synonym handle = nat

text \<open>
  \<open>ws.send(data)\<close> with no callback: throws while the socket is connecting, writes
  the frame when it is open, and otherwise drops the frame (the library's behaviour
  from version 7 on).
\<close>

definition ws_send :: "frame \<Rightarrow> socket \<Rightarrow> js_error + socket" where
  "ws_send f s =
     (case readyState s of
        CONNECTING \<Rightarrow> Inl (Error ''WebSocket is not open: readyState 0 (CONNECTING)'')
      | OPEN \<Rightarrow> Inr (s\<lparr>sent := sent s @ [f]\<rparr>)
      | CLOSING \<Rightarrow> Inr s
      | CLOSED \<Rightarrow> Inr s)"

text \<open>\<open>ws.close()\<close>: a socket that is not yet closed starts closing.\<close>

definition ws_close :: "socket \<Rightarrow> socket" where
  "ws_close s = (case readyState s of CLOSED \<Rightarrow> s | _ \<Rightarrow> s\<lparr>readyState := CLOSING\<rparr>)"

section \<open>The state of the server\<close>

datatype level = Debug | Info | Warn | Err

text \<open>
  A logger call is recorded with its level and the static text of its message up to
  the first interpolation, diacritics dropped.
\<close>

type_synonym log_entry = "level \<times> string"

record session_state =
  sessionId :: jsval
  conversationId :: jsval
  isRecording :: bool
  isConnected :: bool

record session =
  s_id :: ident
  s_clientId :: ident
  openaiConnectionId :: ident
  s_ws :: handle
  s_created :: nat
  state :: session_state

record connection =
  c_ws :: handle
  c_clientId :: ident
  c_created :: nat

record client =
  cl_ws :: handle
  ip :: string
  connected :: nat
  lastPong :: nat

text \<open>
  \<open>OpenAIService.connections\<close>, \<open>SessionManager.sessions\<close> and
  \<open>SessionManager.clientToSession\<close> are maps; \<open>WebSocketServer.clients\<close> is iterated
  by \<open>forEach\<close>, so it keeps its insertion order.
\<close>

record app_state =
  clients :: "(ident \<times> client) list"
  sessions :: "ident \<rightharpoonup> session"
  clientToSession :: "ident \<rightharpoonup> ident"
  connections :: "ident \<rightharpoonup> connection"
  sockets :: "handle \<Rightarrow> socket"
  logs :: "log_entry list"

definition logger :: "level \<Rightarrow> string \<Rightarrow> app_state \<Rightarrow> app_state" where
  "logger l m st = st\<lparr>logs := logs st @ [(l, m)]\<rparr>"

text \<open>
  What the environment supplies while \<open>createSession\<close> runs: the two \<open>uuidv4()\<close>
  results, the socket object \<open>new WebSocket\<close> allocates, how the handshake ends,
  and the two readings of \<open>Date.now()\<close>.
\<close>

datatype handshake = Opened | Failed string | TimedOut

record supplied =
  uuid_session :: ident
  uuid_connection :: ident
  new_socket :: handle
  outcome :: handshake
  now_connection :: nat
  now_session :: nat

section \<open>OpenAIService\<close>

text \<open>
  \<open>createConnection\<close>: the connection is stored before the handshake is awaited;
  the promise resolves on \<open>open\<close> and rejects on \<open>error\<close> or after 10000 ms. The
  \<open>catch\<close> block logs and rethrows. A socket whose handshake failed has emitted
  \<open>error\<close> and \<open>close\<close> and is closed by the time the \<open>catch\<close> block runs.
\<close>

definition createConnection :: "supplied \<Rightarrow> ident \<Rightarrow> app_state \<Rightarrow> (js_error + ident) \<times> app_state" where
  "createConnection env clientId st =
     (let connectionId = uuid_connection env;
          st1 = logger Info ''Criando nova conexao com OpenAI para cliente '' st;
          ws = new_socket env;
          st2 = st1\<lparr>sockets := (sockets st1)
                  (ws := \<lparr>readyState = CONNECTING, sent = [], messageHandlers = []\<rparr>)\<rparr>;
          st3 = st2\<lparr>connections := (connections st2)
                  (connectionId \<mapsto> \<lparr>c_ws = ws, c_clientId = clientId, c_created = now_connection env\<rparr>)\<rparr>
      in case outcome env of
           Opened \<Rightarrow>
             (Inr connectionId,
              logger Info ''Conexao estabelecida com OpenAI''
                (st3\<lparr>sockets := (sockets st3)(ws := (sockets st3 ws)\<lparr>readyState := OPEN\<rparr>)\<rparr>))
         | Failed m \<Rightarrow>
             (Inl (Error m),
              logger Err ''Falha ao criar conexao com OpenAI: ''
                (logger Err ''Erro na conexao OpenAI: ''
                  (st3\<lparr>sockets := (sockets st3)(ws := (sockets st3 ws)\<lparr>readyState := CLOSED\<rparr>)\<rparr>)))
         | TimedOut \<Rightarrow>
             (Inl (Error ''Timeout ao conectar com OpenAI''),
              logger Err ''Falha ao criar conexao com OpenAI: '' st3))"

text \<open>
  The part of \<open>createConnection\<close> that runs before the handshake is awaited: the
  socket is allocated and the connection stored. The server is in this state until
  the handshake ends.
\<close>

definition createConnection_begin :: "supplied \<Rightarrow> ident \<Rightarrow> app_state \<Rightarrow> app_state" where
  "createConnection_begin env clientId st =
     (let connectionId = uuid_connection env;
          st1 = logger Info ''Criando nova conexao com OpenAI para cliente '' st;
          ws = new_socket env;
          st2 = st1\<lparr>sockets := (sockets st1)
                  (ws := \<lparr>readyState = CONNECTING, sent = [], messageHandlers = []\<rparr>)\<rparr>
      in st2\<lparr>connections := (connections st2)
           (connectionId \<mapsto> \<lparr>c_ws = ws, c_clientId = clientId, c_created = now_connection env\<rparr>)\<rparr>)"

text \<open>\<open>closeConnection\<close>: closes the socket and deletes the entry, if there is one.\<close>

definition closeConnection :: "ident \<Rightarrow> app_state \<Rightarrow> app_state" where
  "closeConnection connectionId st =
     (case connections st connectionId of
        None \<Rightarrow> st
      | Some c \<Rightarrow>
          (let st1 = logger Info ''Fechando conexao com OpenAI'' st;
               st2 = st1\<lparr>sockets := (sockets st1)(c_ws c := ws_close (sockets st1 (c_ws c)))\<rparr>
           in st2\<lparr>connections := (connections st2)(connectionId := None)\<rparr>))"

text \<open>
  \<open>setMessageHandler\<close>: attaches the handler to the connection's socket, if the
  connection exists. The only handler the program attaches routes to
  \<open>handleOpenAIMessage\<close> of one session, so a handler is named by that session.
\<close>

definition setMessageHandler :: "ident \<Rightarrow> ident \<Rightarrow> app_state \<Rightarrow> app_state" where
  "setMessageHandler connectionId sid st =
     (case connections st connectionId of
        None \<Rightarrow> st
      | Some c \<Rightarrow>
          st\<lparr>sockets := (sockets st)
            (c_ws c := (sockets st (c_ws c))\<lparr>messageHandlers := messageHandlers (sockets st (c_ws c)) @ [sid]\<rparr>)\<rparr>)"

text \<open>
  \<open>sendEvent\<close>. The event is a JSON object, given by its members. The third
  component of the result is the caller's event object after the call: the function
  assigns \<open>event.event_id\<close> in place. \<open>now\<close> is \<open>Date.now()\<close> and \<open>uuid\<close> is
  \<open>uuidv4()\<close>.
\<close>

definition new_event_id :: "nat \<Rightarrow> ident \<Rightarrow> string" where
  "new_event_id now uuid = ''evt_'' @ digits_of now @ ''_'' @ take 8 uuid"

definition sendEvent ::
  "nat \<Rightarrow> ident \<Rightarrow> ident \<Rightarrow> (string \<times> json) list \<Rightarrow> app_state
    \<Rightarrow> (js_error + jsval) \<times> app_state \<times> (string \<times> json) list" where
  "sendEvent now uuid connectionId event st =
     (case connections st connectionId of
        None \<Rightarrow>
          (Inl (Error (''Conex'' @ [a_tilde] @ ''o n'' @ [a_tilde] @ ''o encontrada: '' @ connectionId)),
           st, event)
      | Some c \<Rightarrow>
          (let event' =
                 (if \<not> truthy (case map_of event ''event_id'' of None \<Rightarrow> Undefined | Some v \<Rightarrow> Val v)
                  then AList.update ''event_id'' (JStr (new_event_id now uuid)) event
                  else event)
           in case ws_send (TextFrame (JObj event')) (sockets st (c_ws c)) of
                Inl e \<Rightarrow> (Inl e, logger Err ''Erro ao enviar evento para OpenAI: '' st, event')
              | Inr s \<Rightarrow>
                  (Inr (case map_of event' ''event_id'' of None \<Rightarrow> Undefined | Some v \<Rightarrow> Val v),
                   logger Debug ''Evento enviado para OpenAI'' (st\<lparr>sockets := (sockets st)(c_ws c := s)\<rparr>),
                   event')))"

section \<open>SessionManager\<close>

text \<open>
  \<open>updateSessionState\<close>: the new session object and the log entries, or the
  TypeError that reading a member of a missing \<open>session\<close>, \<open>conversation\<close> or
  \<open>error\<close> raises. The \<open>switch\<close> compares with \<open>===\<close>.
\<close>

definition updateSessionState :: "session \<Rightarrow> json \<Rightarrow> js_error + session \<times> log_entry list" where
  "updateSessionState session message =
     (case get_prop (Val message) ''type'' of
        Inl e \<Rightarrow> Inl e
      | Inr t \<Rightarrow>
          if t = Val (JStr ''session.created'') then
            (case get_prop (Val message) ''session'' of
               Inl e \<Rightarrow> Inl e
             | Inr s \<Rightarrow>
                 (case get_prop s ''id'' of
                    Inl e \<Rightarrow> Inl e
                  | Inr v \<Rightarrow>
                      Inr (session\<lparr>state := (state session)\<lparr>sessionId := v\<rparr>\<rparr>,
                           [(Info, ''Sessao OpenAI criada: '')])))
          else if t = Val (JStr ''conversation.created'') then
            (case get_prop (Val message) ''conversation'' of
               Inl e \<Rightarrow> Inl e
             | Inr c \<Rightarrow>
                 (case get_prop c ''id'' of
                    Inl e \<Rightarrow> Inl e
                  | Inr v \<Rightarrow>
                      Inr (session\<lparr>state := (state session)\<lparr>conversationId := v\<rparr>\<rparr>,
                           [(Info, ''Conversa criada: '')])))
          else if t = Val (JStr ''error'') then
            (case get_prop (Val message) ''error'' of
               Inl e \<Rightarrow> Inl e
             | Inr er \<Rightarrow>
                 (case get_prop er ''message'' of
                    Inl e \<Rightarrow> Inl e
                  | Inr _ \<Rightarrow> Inr (session, [(Err, ''Erro da API OpenAI: '')])))
          else Inr (session, []))"

text \<open>
  \<open>handleOpenAIMessage\<close>: an unknown session is logged and the message dropped;
  otherwise the state update and the forwarding run inside one \<open>try\<close>, whose \<open>catch\<close>
  logs.
\<close>

definition handleOpenAIMessage :: "ident \<Rightarrow> json \<Rightarrow> app_state \<Rightarrow> app_state" where
  "handleOpenAIMessage sid message st =
     (case sessions st sid of
        None \<Rightarrow> logger Err ''Sessao nao encontrada: '' st
      | Some session \<Rightarrow>
          (case updateSessionState session message of
             Inl e \<Rightarrow> logger Err ''Erro ao processar mensagem da OpenAI: '' st
           | Inr (session', ls) \<Rightarrow>
               (let st1 = st\<lparr>sessions := (sessions st)(sid \<mapsto> session'), logs := logs st @ ls\<rparr>
                in if readyState (sockets st1 (s_ws session')) = OPEN then
                     (case ws_send (TextFrame message) (sockets st1 (s_ws session')) of
                        Inl e \<Rightarrow> logger Err ''Erro ao processar mensagem da OpenAI: '' st1
                      | Inr s \<Rightarrow>
                          logger Debug ''Mensagem enviada ao cliente''
                            (st1\<lparr>sockets := (sockets st1)(s_ws session' := s)\<rparr>))
                   else st1)))"

text \<open>
  \<open>createSession\<close>: a client that has a session gets it back; otherwise a connection
  is opened, the session built, the handler attached and both maps updated. The
  \<open>catch\<close> block logs and rethrows. The result \<open>None\<close> is \<open>undefined\<close>.
\<close>

definition createSession ::
  "supplied \<Rightarrow> ident \<Rightarrow> handle \<Rightarrow> app_state \<Rightarrow> (js_error + session option) \<times> app_state" where
  "createSession env clientId ws st =
     (case clientToSession st clientId of
        Some existingSessionId \<Rightarrow>
          (Inr (sessions st existingSessionId),
           logger Warn ''Cliente ja possui uma sessao ativa: '' st)
      | None \<Rightarrow>
          (let sid = uuid_session env;
               st1 = logger Info ''Criando nova sessao'' st
           in case createConnection env clientId st1 of
                (Inl e, st2) \<Rightarrow> (Inl e, logger Err ''Erro ao criar sessao: '' st2)
              | (Inr cid, st2) \<Rightarrow>
                  (let session =
                         \<lparr>s_id = sid, s_clientId = clientId, openaiConnectionId = cid, s_ws = ws,
                          s_created = now_session env,
                          state = \<lparr>sessionId = Val JNull, conversationId = Val JNull,
                                   isRecording = False, isConnected = True\<rparr>\<rparr>;
                       st3 = setMessageHandler cid sid st2;
                       st4 = st3\<lparr>sessions := (sessions st3)(sid \<mapsto> session)\<rparr>;
                       st5 = st4\<lparr>clientToSession := (clientToSession st4)(clientId \<mapsto> sid)\<rparr>
                   in (Inr (Some session), st5))))"

text \<open>
  The part of \<open>createSession\<close> that runs before it first waits: for a client without
  a session, up to the wait inside \<open>createConnection\<close>; for a client with a session,
  all of it.
\<close>

definition createSession_begin :: "supplied \<Rightarrow> ident \<Rightarrow> app_state \<Rightarrow> app_state" where
  "createSession_begin env clientId st =
     (case clientToSession st clientId of
        Some existingSessionId \<Rightarrow> logger Warn ''Cliente ja possui uma sessao ativa: '' st
      | None \<Rightarrow> createConnection_begin env clientId (logger Info ''Criando nova sessao'' st))"

text \<open>\<open>sendToOpenAI\<close>, with the arguments of \<open>sendEvent\<close>.\<close>

definition sendToOpenAI ::
  "nat \<Rightarrow> ident \<Rightarrow> ident \<Rightarrow> (string \<times> json) list \<Rightarrow> app_state
    \<Rightarrow> (js_error + jsval) \<times> app_state \<times> (string \<times> json) list" where
  "sendToOpenAI now uuid sid event st =
     (case sessions st sid of
        None \<Rightarrow>
          (Inl (Error (''Sess'' @ [a_tilde] @ ''o n'' @ [a_tilde] @ ''o encontrada: '' @ sid)), st, event)
      | Some session \<Rightarrow> sendEvent now uuid (openaiConnectionId session) event st)"

definition closeSession :: "ident \<Rightarrow> app_state \<Rightarrow> app_state" where
  "closeSession sid st =
     (case sessions st sid of
        None \<Rightarrow> logger Warn ''Tentativa de fechar sessao inexistente: '' st
      | Some session \<Rightarrow>
          (let st1 = logger Info ''Encerrando sessao'' st;
               st2 = (if truthy_id (openaiConnectionId session)
                      then closeConnection (openaiConnectionId session) st1 else st1);
               st3 = st2\<lparr>clientToSession := (clientToSession st2)(s_clientId session := None)\<rparr>
           in st3\<lparr>sessions := (sessions st3)(sid := None)\<rparr>))"

definition closeClientSessions :: "ident \<Rightarrow> app_state \<Rightarrow> app_state" where
  "closeClientSessions clientId st =
     (case clientToSession st clientId of
        None \<Rightarrow> st
      | Some sid \<Rightarrow> if truthy_id sid then closeSession sid st else st)"

definition getSession :: "ident \<Rightarrow> app_state \<Rightarrow> session option" where
  "getSession sid st = sessions st sid"

text \<open>\<open>getClientSession\<close>: \<open>None\<close> stands for both \<open>null\<close> and \<open>undefined\<close>.\<close>

definition getClientSession :: "ident \<Rightarrow> app_state \<Rightarrow> session option" where
  "getClientSession clientId st =
     (case clientToSession st clientId of
        None \<Rightarrow> None
      | Some sid \<Rightarrow> if truthy_id sid then sessions st sid else None)"

section \<open>The protocol dispatcher (wsHandler)\<close>

text \<open>
  A handler's outcome: the exception it throws, if any, the state, and the message
  object after the call.
\<close>

type_synonym handler_result = "js_error option \<times> app_state \<times> (string \<times> json) list"

definition forward :: "nat \<Rightarrow> ident \<Rightarrow> ident \<Rightarrow> (string \<times> json) list \<Rightarrow> app_state \<Rightarrow> handler_result" where
  "forward now uuid sid message st =
     (case sendToOpenAI now uuid sid message st of
        (Inl e, st', m') \<Rightarrow> (Some e, st', m')
      | (Inr _, st', m') \<Rightarrow> (None, st', m'))"

definition handleSessionUpdate :: "nat \<Rightarrow> ident \<Rightarrow> ident \<Rightarrow> (string \<times> json) list \<Rightarrow> app_state \<Rightarrow> handler_result" where
  "handleSessionUpdate = forward"

definition handleAudioBufferAppend :: "nat \<Rightarrow> ident \<Rightarrow> ident \<Rightarrow> (string \<times> json) list \<Rightarrow> app_state \<Rightarrow> handler_result" where
  "handleAudioBufferAppend now uuid sid message st =
     (case getSession sid st of
        None \<Rightarrow>
          (Some (Error (''Sess'' @ [a_tilde] @ ''o n'' @ [a_tilde] @ ''o encontrada: '' @ sid)), st, message)
      | Some session \<Rightarrow>
          (let st1 = logger Info ''Recebido buffer de audio para encaminhar a OpenAI'' st
           in case forward now uuid sid message st1 of
                (Some e, st', m') \<Rightarrow> (Some e, logger Err ''Falha ao encaminhar audio para OpenAI: '' st', m')
              | (None, st', m') \<Rightarrow>
                  (None, logger Info ''Buffer de audio encaminhado com sucesso a OpenAI'' st', m')))"

definition handleAudioBufferCommit :: "nat \<Rightarrow> ident \<Rightarrow> ident \<Rightarrow> (string \<times> json) list \<Rightarrow> app_state \<Rightarrow> handler_result" where
  "handleAudioBufferCommit now uuid sid message st =
     (let st1 = logger Info ''Recebida solicitacao para commit do buffer de audio'' st
      in case forward now uuid sid message st1 of
           (Some e, st', m') \<Rightarrow> (Some e, logger Err ''Falha no commit do buffer de audio: '' st', m')
         | (None, st', m') \<Rightarrow>
             (None, logger Info ''Commit do buffer de audio enviado com sucesso a OpenAI'' st', m'))"

definition handleAudioBufferClear :: "nat \<Rightarrow> ident \<Rightarrow> ident \<Rightarrow> (string \<times> json) list \<Rightarrow> app_state \<Rightarrow> handler_result" where
  "handleAudioBufferClear = forward"

definition handleResponseCreate :: "nat \<Rightarrow> ident \<Rightarrow> ident \<Rightarrow> (string \<times> json) list \<Rightarrow> app_state \<Rightarrow> handler_result" where
  "handleResponseCreate = forward"

definition handleResponseCancel :: "nat \<Rightarrow> ident \<Rightarrow> ident \<Rightarrow> (string \<times> json) list \<Rightarrow> app_state \<Rightarrow> handler_result" where
  "handleResponseCancel = forward"

definition handleConversationItemCreate :: "nat \<Rightarrow> ident \<Rightarrow> ident \<Rightarrow> (string \<times> json) list \<Rightarrow> app_state \<Rightarrow> handler_result" where
  "handleConversationItemCreate = forward"

definition handleConversationItemDelete :: "nat \<Rightarrow> ident \<Rightarrow> ident \<Rightarrow> (string \<times> json) list \<Rightarrow> app_state \<Rightarrow> handler_result" where
  "handleConversationItemDelete = forward"

text \<open>
  The \<open>try\<close> block of \<open>handleClientMessage\<close>. Everything in it that changes the
  state runs before the first suspension of the \<open>async\<close> function, so it runs when
  the function is called. A message whose \<open>type\<close> equals one of the eight strings
  is an object.
\<close>

definition dispatch_try ::
  "nat \<Rightarrow> ident \<Rightarrow> ident \<Rightarrow> json \<Rightarrow> app_state \<Rightarrow> js_error option \<times> app_state \<times> json" where
  "dispatch_try now uuid clientId message st =
     (case getClientSession clientId st of
        None \<Rightarrow> (None, logger Err ''Cliente nao possui sessao ativa'' st, message)
      | Some session \<Rightarrow>
          (case get_prop (Val message) ''type'' of
             Inl e \<Rightarrow> (Some e, st, message)
           | Inr t \<Rightarrow>
               (let sid = s_id session;
                    st1 = logger Debug ''Mensagem recebida do cliente: '' st;
                    unknown = (None, logger Warn ''Tipo de mensagem desconhecido: '' st1, message);
                    run = (\<lambda>h fs. case h now uuid sid fs st1 of (r, st', fs') \<Rightarrow> (r, st', JObj fs'))
                in case message of
                     JObj fs \<Rightarrow>
                       if t = Val (JStr ''session.update'') then run handleSessionUpdate fs
                       else if t = Val (JStr ''input_audio_buffer.append'') then run handleAudioBufferAppend fs
                       else if t = Val (JStr ''input_audio_buffer.commit'') then run handleAudioBufferCommit fs
                       else if t = Val (JStr ''input_audio_buffer.clear'') then run handleAudioBufferClear fs
                       else if t = Val (JStr ''response.create'') then run handleResponseCreate fs
                       else if t = Val (JStr ''response.cancel'') then run handleResponseCancel fs
                       else if t = Val (JStr ''conversation.item.create'') then run handleConversationItemCreate fs
                       else if t = Val (JStr ''conversation.item.delete'') then run handleConversationItemDelete fs
                       else unknown
                   | _ \<Rightarrow> unknown)))"

text \<open>
  The \<open>catch\<close> block of \<open>handleClientMessage\<close>. \<open>JSON.stringify\<close> leaves out a member
  whose value is \<open>undefined\<close>. An exception raised in this block rejects the
  function's promise, which the process-wide \<open>unhandledRejection\<close> handler logs.
\<close>

definition internal_error_frame :: "js_error \<Rightarrow> jsval \<Rightarrow> frame" where
  "internal_error_frame e eid =
     TextFrame (JObj ([(''type'', JStr ''error''),
        (''error'', JObj [(''message'', JStr (''Erro ao processar solicita'' @ [c_cedilla, a_tilde] @ ''o: '' @ error_message e)),
                          (''code'', JStr ''internal_error'')])]
        @ (case eid of Undefined \<Rightarrow> [] | Val v \<Rightarrow> [(''event_id'', v)])))"

definition dispatch_catch :: "ident \<Rightarrow> json \<Rightarrow> js_error \<Rightarrow> app_state \<Rightarrow> app_state" where
  "dispatch_catch clientId message e st =
     (let st1 = logger Err ''Erro ao processar mensagem do cliente: '' st
      in case getClientSession clientId st1 of
           None \<Rightarrow> st1
         | Some session \<Rightarrow>
             if readyState (sockets st1 (s_ws session)) = OPEN then
               (case get_prop (Val message) ''event_id'' of
                  Inl e' \<Rightarrow> logger Err ''Rejeicao de Promise nao tratada'' st1
                | Inr eid \<Rightarrow>
                    (case ws_send (internal_error_frame e eid) (sockets st1 (s_ws session)) of
                       Inl e' \<Rightarrow> logger Err ''Rejeicao de Promise nao tratada'' st1
                     | Inr s \<Rightarrow> st1\<lparr>sockets := (sockets st1)(s_ws session := s)\<rparr>))
             else st1)"

text \<open>
  \<open>handleClientMessage\<close> of wsHandler, run to completion: the state and the message
  object afterwards.
\<close>

definition handleClientMessage :: "nat \<Rightarrow> ident \<Rightarrow> ident \<Rightarrow> json \<Rightarrow> app_state \<Rightarrow> app_state \<times> json" where
  "handleClientMessage now uuid clientId message st =
     (case dispatch_try now uuid clientId message st of
        (None, st', m') \<Rightarrow> (st', m')
      | (Some e, st', m') \<Rightarrow> (dispatch_catch clientId m' e st', m'))"

section \<open>WebSocketServer\<close>

definition invalid_format_frame :: "js_error \<Rightarrow> frame" where
  "invalid_format_frame e =
     TextFrame (JObj [(''type'', JStr ''error''),
        (''error'', JObj [(''message'', JStr (''Erro no formato da mensagem: '' @ error_message e)),
                          (''code'', JStr ''invalid_message_format'')])])"

text \<open>
  \<open>WebSocketServer.handleClientMessage\<close>. \<open>parse\<close> is \<open>JSON.parse\<close>. The dispatcher
  is called and not awaited: its \<open>try\<close> block runs at once, and its \<open>catch\<close> block,
  when there is something to catch, runs after the caller has returned; the second
  component of the result is that pending work.
\<close>

definition server_handleClientMessage ::
  "(string \<Rightarrow> js_error + json) \<Rightarrow> nat \<Rightarrow> ident \<Rightarrow> ident \<Rightarrow> string \<Rightarrow> app_state
    \<Rightarrow> app_state \<times> (json \<times> js_error) option" where
  "server_handleClientMessage parse now uuid clientId data st =
     (let st1 = logger Debug ''Mensagem recebida'' st
      in case parse data of
           Inr message \<Rightarrow>
             (case dispatch_try now uuid clientId message st1 of
                (None, st', m') \<Rightarrow> (st', None)
              | (Some e, st', m') \<Rightarrow> (st', Some (m', e)))
         | Inl e \<Rightarrow>
             (let st2 = logger Err ''Erro ao processar mensagem: '' st1
              in case map_of (clients st2) clientId of
                   None \<Rightarrow> (st2, None)
                 | Some client \<Rightarrow>
                     if readyState (sockets st2 (cl_ws client)) = OPEN then
                       (case ws_send (invalid_format_frame e) (sockets st2 (cl_ws client)) of
                          Inl e' \<Rightarrow> (st2, None)
                        | Inr s \<Rightarrow> (st2\<lparr>sockets := (sockets st2)(cl_ws client := s)\<rparr>, None))
                     else (st2, None)))"

text \<open>
  The \<open>message\<close> listener that \<open>handleConnection\<close> attaches to the client's socket
  \<open>ws\<close>: it calls \<open>handleClientMessage\<close> and then writes a frame of type \<open>message\<close>
  to the socket, whatever the message was. An exception of that \<open>send\<close> is not
  caught by the program; the process-wide handler logs it.
\<close>

definition test_frame :: frame where
  "test_frame =
     TextFrame (JObj [(''type'', JStr ''message''),
        (''error'', JObj [(''message'', JStr ''Teste de mensagem..... opa''),
                          (''code'', JStr ''no_code_here'')])])"

definition onMessage ::
  "(string \<Rightarrow> js_error + json) \<Rightarrow> nat \<Rightarrow> ident \<Rightarrow> ident \<Rightarrow> handle \<Rightarrow> string \<Rightarrow> app_state \<Rightarrow> app_state" where
  "onMessage parse now uuid clientId ws data st =
     (let st0 = logger Info ''CHegou alguma coisa! '' st
      in case server_handleClientMessage parse now uuid clientId data st0 of
           (st1, pending) \<Rightarrow>
             (let st2 = (case ws_send test_frame (sockets st1 ws) of
                           Inl e \<Rightarrow> logger Err ''Erro nao capturado: '' st1
                         | Inr s \<Rightarrow> st1\<lparr>sockets := (sockets st1)(ws := s)\<rparr>)
              in case pending of
                   None \<Rightarrow> st2
                 | Some (m, e) \<Rightarrow> dispatch_catch clientId m e st2))"

text \<open>
  The part of \<open>handleConnection\<close> that runs before it waits for \<open>createSession\<close>:
  the client is stored in \<open>clients\<close> (\<open>Map.set\<close> replaces the value of a present key
  in place and appends an absent one) and \<open>createSession\<close> runs up to its wait.
  \<open>clientId\<close> is the result of \<open>uuidv4()\<close>, \<open>now1\<close> and \<open>now2\<close> are the two readings of
  \<open>Date.now()\<close>. The listeners for \<open>message\<close>, \<open>close\<close>, \<open>error\<close> and \<open>pong\<close> are attached
  only after the wait.
\<close>

definition handleConnection_begin ::
  "supplied \<Rightarrow> ident \<Rightarrow> handle \<Rightarrow> string \<Rightarrow> nat \<Rightarrow> nat \<Rightarrow> app_state \<Rightarrow> app_state" where
  "handleConnection_begin env clientId ws clientIp now1 now2 st =
     (let st1 = logger Info ''Nova conexao WebSocket'' st;
          st2 = st1\<lparr>clients := AList.update clientId
                  \<lparr>cl_ws = ws, ip = clientIp, connected = now1, lastPong = now2\<rparr> (clients st1)\<rparr>
      in createSession_begin env clientId st2)"

text \<open>
  The peer closes the socket \<open>ws\<close> while no \<open>close\<close> listener is attached to it: the
  socket is closed and the program runs no code.
\<close>

definition socket_closed :: "handle \<Rightarrow> app_state \<Rightarrow> app_state" where
  "socket_closed ws st = st\<lparr>sockets := (sockets st)(ws := (sockets st ws)\<lparr>readyState := CLOSED\<rparr>)\<rparr>"

text \<open>\<open>handleClientDisconnect\<close>: the teardown of a client.\<close>

definition handleClientDisconnect :: "ident \<Rightarrow> app_state \<Rightarrow> app_state" where
  "handleClientDisconnect clientId st =
     (let st1 = logger Info ''Cliente desconectado'' st;
          st2 = closeClientSessions clientId st1
      in st2\<lparr>clients := AList.delete clientId (clients st2)\<rparr>)"

text \<open>
  \<open>ws.ping(data)\<close>, called on an open socket only.
\<close>

definition ws_ping :: "socket \<Rightarrow> socket" where
  "ws_ping s = s\<lparr>sent := sent s @ [PingFrame (JObj [(''type'', JStr ''ping'')])]\<rparr>"

text \<open>
  The body of the \<open>forEach\<close> callback of \<open>startPingInterval\<close> for one client;
  \<open>now\<close> is the reading of \<open>Date.now()\<close> there. \<open>client.lastPong && ...\<close> is false
  for a \<open>lastPong\<close> of 0.
\<close>

definition checkClient :: "nat \<Rightarrow> ident \<Rightarrow> client \<Rightarrow> app_state \<Rightarrow> app_state" where
  "checkClient now clientId client st =
     (if readyState (sockets st (cl_ws client)) = OPEN then
        (let st1 = st\<lparr>sockets := (sockets st)(cl_ws client := ws_ping (sockets st (cl_ws client)))\<rparr>
         in if lastPong client \<noteq> 0 \<and> int now - int (lastPong client) > 60000
            then handleClientDisconnect clientId
                   (logger Warn ''Cliente nao respondeu ao ping, fechando conexao'' st1)
            else st1)
      else if readyState (sockets st (cl_ws client)) \<noteq> CONNECTING
           then handleClientDisconnect clientId st
      else st)"

text \<open>
  One firing of the 30000 ms interval: \<open>this.clients.forEach\<close>. The callback deletes
  no entry but the one it is visiting, so every entry present at the start is
  visited once, in insertion order. \<open>now\<close> gives the reading of \<open>Date.now()\<close> at each
  client.
\<close>

fun checkClients :: "(ident \<Rightarrow> nat) \<Rightarrow> (ident \<times> client) list \<Rightarrow> app_state \<Rightarrow> app_state" where
  "checkClients now [] st = st"
| "checkClients now ((clientId, client) # rest) st =
     checkClients now rest (checkClient (now clientId) clientId client st)"

definition pingInterval :: "(ident \<Rightarrow> nat) \<Rightarrow> app_state \<Rightarrow> app_state" where
  "pingInterval now st = checkClients now (clients st) st"


section \<open>Double and single precision arithmetic\<close>

text \<open>
  The exponent of a positive rational: \<open>ilog2 x\<close> is the integer \<open>e\<close> with
  \<open>2\<^sup>e \<le> x < 2\<^sup>e\<^sup>+\<^sup>1\<close>.
\<close>

definition ilog2 :: "rat \<Rightarrow> int" where
  "ilog2 x = (if 1 \<le> x then bitlen \<lfloor>x\<rfloor> - 1 else - bitlen (\<lceil>1 / x\<rceil> - 1))"

text \<open>Rounding to the nearest integer, ties to the even one.\<close>

definition round_half_even :: "rat \<Rightarrow> int" where
  "round_half_even q =
     (let f = \<lfloor>q\<rfloor>; d = q - of_int f
      in if d < 1 / 2 then f else if 1 / 2 < d then f + 1 else if even f then f else f + 1)"

text \<open>
  IEEE 754 round-to-nearest-even into the binary format with \<open>p\<close> significant bits
  and exponents from \<open>emin\<close> to \<open>emax\<close>: the value is rounded to a multiple of the
  unit in the last place of its binade (of the lowest binade for a subnormal), and a
  result of magnitude \<open>2\<^sup>e\<^sup>m\<^sup>a\<^sup>x\<^sup>+\<^sup>1\<close> or more is an infinity.
\<close>

definition round_to :: "nat \<Rightarrow> int \<Rightarrow> int \<Rightarrow> rat \<Rightarrow> number" where
  "round_to p emin emax x =
     (if x = 0 then Fin 0
      else (let e = max (ilog2 \<bar>x\<bar>) emin;
                u = 2 powi (e - int p + 1);
                r = of_int (round_half_even (x / u)) * u
            in if 2 powi (emax + 1) \<le> \<bar>r\<bar> then (if 0 < x then PInf else NInf) else Fin r))"

definition rd64 :: "rat \<Rightarrow> number" where
  "rd64 = round_to 53 (- 1022) 1023"

definition rd32 :: "rat \<Rightarrow> number" where
  "rd32 = round_to 24 (- 126) 127"

text \<open>The operators \<open>/\<close>, \<open>*\<close>, \<open>+\<close> and \<open>-\<close> on numbers; a zero divisor is \<open>+0\<close>.\<close>

fun fdiv :: "number \<Rightarrow> number \<Rightarrow> number" where
  "fdiv (Fin a) (Fin b) =
     (if b = 0 then (if a = 0 then NaN else if 0 < a then PInf else NInf) else rd64 (a / b))"
| "fdiv (Fin a) PInf = Fin 0"
| "fdiv (Fin a) NInf = Fin 0"
| "fdiv PInf (Fin b) = (if 0 \<le> b then PInf else NInf)"
| "fdiv NInf (Fin b) = (if 0 \<le> b then NInf else PInf)"
| "fdiv _ _ = NaN"

fun fmul :: "number \<Rightarrow> number \<Rightarrow> number" where
  "fmul (Fin a) (Fin b) = rd64 (a * b)"
| "fmul (Fin a) PInf = (if a = 0 then NaN else if 0 < a then PInf else NInf)"
| "fmul (Fin a) NInf = (if a = 0 then NaN else if 0 < a then NInf else PInf)"
| "fmul PInf (Fin b) = (if b = 0 then NaN else if 0 < b then PInf else NInf)"
| "fmul NInf (Fin b) = (if b = 0 then NaN else if 0 < b then NInf else PInf)"
| "fmul PInf PInf = PInf"
| "fmul PInf NInf = NInf"
| "fmul NInf PInf = NInf"
| "fmul NInf NInf = PInf"
| "fmul _ _ = NaN"

fun fadd :: "number \<Rightarrow> number \<Rightarrow> number" where
  "fadd (Fin a) (Fin b) = rd64 (a + b)"
| "fadd (Fin a) PInf = PInf"
| "fadd (Fin a) NInf = NInf"
| "fadd PInf (Fin b) = PInf"
| "fadd NInf (Fin b) = NInf"
| "fadd PInf PInf = PInf"
| "fadd NInf NInf = NInf"
| "fadd _ _ = NaN"

fun fneg :: "number \<Rightarrow> number" where
  "fneg (Fin a) = Fin (- a)"
| "fneg PInf = NInf"
| "fneg NInf = PInf"
| "fneg NaN = NaN"

definition fsub :: "number \<Rightarrow> number \<Rightarrow> number" where
  "fsub a b = fadd a (fneg b)"

text \<open>The value a \<open>Float32Array\<close> element holds after a number is stored in it.\<close>

fun fround :: "number \<Rightarrow> number" where
  "fround (Fin a) = rd32 a"
| "fround v = v"

text \<open>The comparisons \<open><\<close> and \<open>===\<close>.\<close>

fun num_less :: "number \<Rightarrow> number \<Rightarrow> bool" where
  "num_less (Fin a) (Fin b) = (a < b)"
| "num_less (Fin a) PInf = True"
| "num_less NInf (Fin b) = True"
| "num_less NInf PInf = True"
| "num_less _ _ = False"

definition num_eq :: "number \<Rightarrow> number \<Rightarrow> bool" where
  "num_eq a b = (a \<noteq> NaN \<and> a = b)"

text \<open>\<open>Math.min\<close>, \<open>Math.max\<close>, \<open>Math.round\<close> and \<open>Math.floor\<close>.\<close>

definition js_min :: "number \<Rightarrow> number \<Rightarrow> number" where
  "js_min a b = (if a = NaN \<or> b = NaN then NaN else if num_less b a then b else a)"

definition js_max :: "number \<Rightarrow> number \<Rightarrow> number" where
  "js_max a b = (if a = NaN \<or> b = NaN then NaN else if num_less a b then b else a)"

fun js_round :: "number \<Rightarrow> number" where
  "js_round (Fin q) = Fin (of_int \<lfloor>q + 1 / 2\<rfloor>)"
| "js_round v = v"

fun js_floor :: "number \<Rightarrow> number" where
  "js_floor (Fin q) = Fin (of_int \<lfloor>q\<rfloor>)"
| "js_floor v = v"

text \<open>
  Truncation towards zero, and the conversions \<open>ToInt16\<close> and \<open>ToIndex\<close>. The engine's
  message of the \<open>RangeError\<close> also names the offending length.
\<close>

definition trunc :: "rat \<Rightarrow> int" where
  "trunc q = (if 0 \<le> q then \<lfloor>q\<rfloor> else \<lceil>q\<rceil>)"

fun ToInt16 :: "number \<Rightarrow> 16 word" where
  "ToInt16 (Fin q) = word_of_int (trunc q)"
| "ToInt16 v = 0"

fun ToIndex :: "number \<Rightarrow> js_error + nat" where
  "ToIndex (Fin q) =
     (if trunc q < 0 \<or> 2 ^ 53 - 1 < trunc q then Inl (RangeError ''Invalid typed array length'')
      else Inr (nat (trunc q)))"
| "ToIndex NaN = Inr 0"
| "ToIndex v = Inl (RangeError ''Invalid typed array length'')"

section \<open>Audio utilities (audioUtils)\<close>

text \<open>
  A Node.js \<open>Buffer\<close>: a view of \<open>byteLength\<close> bytes that starts \<open>byteOffset\<close> bytes
  into the bytes of its \<open>ArrayBuffer\<close>.
\<close>

record buffer =
  arrayBuffer :: "8 word list"
  byteOffset :: nat
  byteLength :: nat

definition valid_buffer :: "buffer \<Rightarrow> bool" where
  "valid_buffer b = (byteOffset b + byteLength b \<le> length (arrayBuffer b) \<and> length (arrayBuffer b) < 2 ^ 53)"

text \<open>Element \<open>i\<close> of an \<open>Int16Array\<close> over bytes \<open>bs\<close> from offset \<open>off\<close>, in the
  little-endian byte order of the platforms Node.js runs on.\<close>

definition int16_at :: "8 word list \<Rightarrow> nat \<Rightarrow> nat \<Rightarrow> 16 word" where
  "int16_at bs off i = word_cat (bs ! (off + 2 * i + 1)) (bs ! (off + 2 * i))"

text \<open>
  \<open>new Int16Array(buffer, byteOffset, length)\<close>: the offset must be a multiple of
  the element size, the length goes through \<open>ToIndex\<close>, which truncates, and the
  view must fit in the buffer.
\<close>

definition new_Int16Array :: "8 word list \<Rightarrow> nat \<Rightarrow> number \<Rightarrow> js_error + 16 word list" where
  "new_Int16Array bs off len =
     (if off mod 2 \<noteq> 0 then Inl (RangeError ''start offset of Int16Array should be a multiple of 2'')
      else case ToIndex len of
             Inl e \<Rightarrow> Inl e
           | Inr n \<Rightarrow>
               if length bs < off + n * 2 then Inl (RangeError ''Invalid typed array length'')
               else Inr (map (int16_at bs off) [0..<n]))"

text \<open>
  \<open>pcm16ToFloat32\<close>. The argument is a \<open>Buffer\<close> (\<open>Buffer.from\<close> makes one of a
  \<open>Uint8Array\<close>). The quotient is a double, and storing it in the \<open>Float32Array\<close>
  rounds it to single precision.
\<close>

definition pcm16ToFloat32 :: "buffer \<Rightarrow> js_error + number list" where
  "pcm16ToFloat32 pcm16Buffer =
     (case new_Int16Array (arrayBuffer pcm16Buffer) (byteOffset pcm16Buffer)
             (fdiv (Fin (of_nat (byteLength pcm16Buffer))) (Fin 2)) of
        Inl e \<Rightarrow> Inl e
      | Inr int16Array \<Rightarrow>
          Inr (map (\<lambda>w. fround (fdiv (Fin (of_int (sint w)))
                                  (Fin (if sint w < 0 then 32768 else 32767))))
                 int16Array))"

text \<open>
  \<open>float32ToPcm16\<close>: the result is a \<open>Buffer\<close> over the whole \<open>ArrayBuffer\<close> of the
  new \<open>Int16Array\<close>.
\<close>

definition bytes_of_int16 :: "16 word \<Rightarrow> 8 word list" where
  "bytes_of_int16 w = [ucast w, ucast (drop_bit 8 w)]"

definition float32ToPcm16 :: "number list \<Rightarrow> buffer" where
  "float32ToPcm16 float32Array =
     (let int16Array =
            map (\<lambda>f. let s = js_max (Fin (- 1)) (js_min (Fin 1) f)
                      in ToInt16 (if num_less s (Fin 0) then fmul s (Fin 32768) else fmul s (Fin 32767)))
              float32Array
      in \<lparr>arrayBuffer = concat (map bytes_of_int16 int16Array), byteOffset = 0,
          byteLength = 2 * length int16Array\<rparr>)"

text \<open>
  \<open>audioData[index]\<close> as a number: an index that is not an integer within the array
  gives \<open>undefined\<close>, which is NaN in arithmetic and when stored in a \<open>Float32Array\<close>.
\<close>

fun element_at :: "number list \<Rightarrow> number \<Rightarrow> number" where
  "element_at xs (Fin q) =
     (if q = of_int \<lfloor>q\<rfloor> \<and> 0 \<le> q \<and> nat \<lfloor>q\<rfloor> < length xs then xs ! nat \<lfloor>q\<rfloor> else NaN)"
| "element_at xs v = NaN"

text \<open>
  \<open>new Float32Array(length)\<close>; \<open>max_length\<close> is the longest array the engine
  allocates.
\<close>

definition new_Float32Array :: "nat \<Rightarrow> number \<Rightarrow> js_error + nat" where
  "new_Float32Array max_length len =
     (case ToIndex len of
        Inl e \<Rightarrow> Inl e
      | Inr n \<Rightarrow> if max_length < n then Inl (RangeError ''Array buffer allocation failed'') else Inr n)"

text \<open>\<open>resampleAudio\<close>; the loop fills \<open>result[i]\<close> for \<open>i\<close> from 0 to \<open>newLength - 1\<close>.\<close>

definition resample_at :: "number list \<Rightarrow> number \<Rightarrow> nat \<Rightarrow> number" where
  "resample_at audioData ratio i =
     (let indexOriginal = fmul (Fin (of_nat i)) ratio;
          index = js_floor indexOriginal;
          fraction = fsub indexOriginal index
      in if num_less (fadd index (Fin 1)) (Fin (of_nat (length audioData)))
         then fround (fadd (fmul (element_at audioData index) (fsub (Fin 1) fraction))
                           (fmul (element_at audioData (fadd index (Fin 1))) fraction))
         else fround (element_at audioData index))"

definition resampleAudio :: "nat \<Rightarrow> number list \<Rightarrow> number \<Rightarrow> number \<Rightarrow> js_error + number list" where
  "resampleAudio max_length audioData originalSampleRate targetSampleRate =
     (if num_eq originalSampleRate targetSampleRate then Inr audioData
      else (let ratio = fdiv originalSampleRate targetSampleRate;
                newLength = js_round (fdiv (Fin (of_nat (length audioData))) ratio)
            in case new_Float32Array max_length newLength of
                 Inl e \<Rightarrow> Inl e
               | Inr n \<Rightarrow> Inr (map (resample_at audioData ratio) [0..<n])))"

section \<open>Notions the theorems use\<close>

text \<open>\<open>m.k1.k2\<close>, and \<open>m.type === t\<close>.\<close>

definition member2 :: "json \<Rightarrow> string \<Rightarrow> string \<Rightarrow> js_error + jsval" where
  "member2 m k1 k2 = (case get_prop (Val m) k1 of Inl e \<Rightarrow> Inl e | Inr v \<Rightarrow> get_prop v k2)"

definition has_type :: "json \<Rightarrow> string \<Rightarrow> bool" where
  "has_type m t = (get_prop (Val m) ''type'' = Inr (Val (JStr t)))"


text \<open>The socket store after frame \<open>f\<close> was written to socket \<open>h\<close> if and only if \<open>h\<close> is open.\<close>

definition written_if_open :: "frame \<Rightarrow> handle \<Rightarrow> app_state \<Rightarrow> handle \<Rightarrow> socket" where
  "written_if_open f h st =
     (if readyState (sockets st h) = OPEN
      then (sockets st)(h := (sockets st h)\<lparr>sent := sent (sockets st h) @ [f]\<rparr>)
      else sockets st)"

text \<open>A number in the closed interval from -1 to 1.\<close>

fun unit_range :: "number \<Rightarrow> bool" where
  "unit_range (Fin r) = (- 1 \<le> r \<and> r \<le> 1)"
| "unit_range v = False"

text \<open>The float sample that \<open>pcm16ToFloat32\<close> makes of a 16-bit sample, and the 16-bit
  sample that \<open>float32ToPcm16\<close> makes of a float sample.\<close>

definition sample_to_float :: "16 word \<Rightarrow> number" where
  "sample_to_float w =
     fround (fdiv (Fin (of_int (sint w))) (Fin (if sint w < 0 then 32768 else 32767)))"

definition float_to_sample :: "number \<Rightarrow> 16 word" where
  "float_to_sample f =
     (let s = js_max (Fin (- 1)) (js_min (Fin 1) f)
      in ToInt16 (if num_less s (Fin 0) then fmul s (Fin 32768) else fmul s (Fin 32767)))"

text \<open>
  The linear interpolation between \<open>a\<close> and \<open>b\<close> at the fraction \<open>t\<close>, in the arithmetic
  of the loop and stored in a \<open>Float32Array\<close>; and a value that a \<open>Float32Array\<close>
  holds.
\<close>

definition lerp :: "number \<Rightarrow> number \<Rightarrow> number \<Rightarrow> number" where
  "lerp a b t = fround (fadd (fmul a (fsub (Fin 1) t)) (fmul b t))"

definition is_float32 :: "number \<Rightarrow> bool" where
  "is_float32 v = (fround v = v)"

text \<open>
  The registry is consistent: every client that is mapped to a session id is mapped to
  a non-empty one, under which a session is stored that names this client as its
  owner and carries a non-empty connection id.
\<close>

definition registry_ok :: "app_state \<Rightarrow> bool" where
  "registry_ok st =
     (\<forall>cid sid. clientToSession st cid = Some sid \<longrightarrow>
        sid \<noteq> [] \<and> (\<exists>s. sessions st sid = Some s \<and> s_clientId s = cid \<and> openaiConnectionId s \<noteq> []))"

text \<open>
  The liveness check evicts a client: its socket is open, \<open>lastPong\<close> is set and more
  than 60000 ms old, or its socket is closing or closed.
\<close>

definition evictable :: "nat \<Rightarrow> client \<Rightarrow> app_state \<Rightarrow> bool" where
  "evictable now client st =
     (readyState (sockets st (cl_ws client)) = OPEN \<and> lastPong client \<noteq> 0 \<and>
        int now - int (lastPong client) > 60000
      \<or> readyState (sockets st (cl_ws client)) = CLOSING
      \<or> readyState (sockets st (cl_ws client)) = CLOSED)"

text \<open>Nothing is added from \<open>st\<close> to \<open>st'\<close>: a key absent from a map stays absent.\<close>

definition shrinks :: "app_state \<Rightarrow> app_state \<Rightarrow> bool" where
  "shrinks st st' =
     ((\<forall>k. sessions st k = None \<longrightarrow> sessions st' k = None) \<and>
      (\<forall>k. clientToSession st k = None \<longrightarrow> clientToSession st' k = None) \<and>
      (\<forall>k. connections st k = None \<longrightarrow> connections st' k = None) \<and>
      (\<forall>k. map_of (clients st) k = None \<longrightarrow> map_of (clients st') k = None))"

section \<open>Example states\<close>

text \<open>
  A server with one client \<open>client-1\<close> on the open socket 0, its session
  \<open>session-1\<close>, and the session's upstream connection \<open>conn-1\<close> on the open socket 1.
\<close>

definition idle_socket :: socket where
  "idle_socket = \<lparr>readyState = CLOSED, sent = [], messageHandlers = []\<rparr>"

definition open_socket :: socket where
  "open_socket = \<lparr>readyState = OPEN, sent = [], messageHandlers = []\<rparr>"

definition empty_state :: app_state where
  "empty_state =
     \<lparr>clients = [], sessions = Map.empty, clientToSession = Map.empty, connections = Map.empty,
      sockets = (\<lambda>h. idle_socket), logs = []\<rparr>"

definition example_session :: session where
  "example_session =
     \<lparr>s_id = ''session-1'', s_clientId = ''client-1'', openaiConnectionId = ''conn-1'', s_ws = 0,
      s_created = 1700000000001,
      state = \<lparr>sessionId = Val JNull, conversationId = Val JNull, isRecording = False, isConnected = True\<rparr>\<rparr>"

definition example_client :: client where
  "example_client = \<lparr>cl_ws = 0, ip = ''10.0.0.7'', connected = 1700000000000, lastPong = 1700000000000\<rparr>"

definition example_state :: app_state where
  "example_state =
     \<lparr>clients = [(''client-1'', example_client)],
      sessions = [''session-1'' \<mapsto> example_session],
      clientToSession = [''client-1'' \<mapsto> ''session-1''],
      connections = [''conn-1'' \<mapsto> \<lparr>c_ws = 1, c_clientId = ''client-1'', c_created = 1700000000000\<rparr>],
      sockets = (\<lambda>h. idle_socket)(0 := open_socket, 1 := open_socket\<lparr>messageHandlers := [''session-1'']\<rparr>),
      logs = []\<rparr>"

definition example_env :: supplied where
  "example_env =
     \<lparr>uuid_session = ''session-2'', uuid_connection = ''conn-2'', new_socket = 3, outcome = TimedOut,
      now_connection = 1700000050000, now_session = 1700000060000\<rparr>"

text \<open>
  A second client \<open>client-2\<close> connects to that server on the open socket 2, and
  closes its socket while the server waits for the upstream handshake of \<open>conn-2\<close>.
  The liveness check then fires with the clock at 1700000055000.
\<close>

definition pending_client :: client where
  "pending_client = \<lparr>cl_ws = 2, ip = ''10.0.0.8'', connected = 1700000050000, lastPong = 1700000050000\<rparr>"

definition pending_state :: app_state where
  "pending_state =
     socket_closed 2
       (handleConnection_begin example_env ''client-2'' 2 ''10.0.0.8'' 1700000050000 1700000050000
          (example_state\<lparr>sockets := (sockets example_state)(2 := open_socket)\<rparr>))"

definition example_clock :: "ident \<Rightarrow> nat" where
  "example_clock clientId = 1700000055000"

section \<open>Facts about the registry\<close>

lemma logger_simps:
  "clients (logger l m st) = clients st"
  "sessions (logger l m st) = sessions st"
  "clientToSession (logger l m st) = clientToSession st"
  "connections (logger l m st) = connections st"
  "sockets (logger l m st) = sockets st"
  "logs (logger l m st) = logs st @ [(l, m)]"
  by (simp_all add: logger_def)

section \<open>Session creation\<close>

text \<open>
  C2. A client that already has a session: \<open>createSession\<close> returns the session
  stored for it, opens no upstream connection (the connection map and the socket
  store are the same) and leaves both session maps as they were; the only trace is
  the warning in the log.
\<close>

theorem createSession_existing:
  assumes "clientToSession st clientId = Some sid" and "sessions st sid = Some s"
  shows "case createSession env clientId ws st of (r, st') \<Rightarrow>
           r = Inr (Some s) \<and> sessions st' = sessions st \<and> clientToSession st' = clientToSession st \<and>
           connections st' = connections st \<and> sockets st' = sockets st \<and> clients st' = clients st \<and>
           logs st' = logs st @ [(Warn, ''Cliente ja possui uma sessao ativa: '')]"
  using assms by (simp add: createSession_def logger_simps)

theorem createSession_existing_witness:
  "clientToSession example_state ''client-1'' = Some ''session-1'' \<and>
   sessions example_state ''session-1'' = Some example_session \<and>
   (case createSession example_env ''client-1'' 0 example_state of (r, st') \<Rightarrow>
      r = Inr (Some example_session) \<and> sessions st' = sessions example_state \<and>
      clientToSession st' = clientToSession example_state \<and>
      connections st' = connections example_state \<and> sockets st' = sockets example_state \<and>
      clients st' = clients example_state \<and>
      logs st' = logs example_state @ [(Warn, ''Cliente ja possui uma sessao ativa: '')])"
proof -
  have a: "clientToSession example_state ''client-1'' = Some ''session-1''"
    by (simp add: example_state_def)
  have b: "sessions example_state ''session-1'' = Some example_session"
    by (simp add: example_state_def)
  from createSession_existing [OF a b, where env = example_env and ws = 0] a b
  show ?thesis by simp
qed

text \<open>
  When the handshake times out for a client without a session, \<open>createSession\<close>
  fails with the timeout error and both session maps are as before, but the
  connection stored before the wait is still in the connection map, with its socket
  still connecting.
\<close>

lemma createSession_timeout:
  assumes "clientToSession st clientId = None" and "outcome env = TimedOut"
  shows "case createSession env clientId ws st of (r, st') \<Rightarrow>
           r = Inl (Error ''Timeout ao conectar com OpenAI'') \<and>
           sessions st' = sessions st \<and> clientToSession st' = clientToSession st \<and>
           connections st' = (connections st)(uuid_connection env \<mapsto>
              \<lparr>c_ws = new_socket env, c_clientId = clientId, c_created = now_connection env\<rparr>) \<and>
           readyState (sockets st' (new_socket env)) = CONNECTING"
  using assms by (simp add: createSession_def createConnection_def logger_simps Let_def)

text \<open>
  C1. The claim asks that after a handshake timeout nothing is left registered. At the
  example state, for a new client \<open>client-2\<close> whose handshake times out,
  \<open>createSession\<close> fails with the timeout error and registers no session, but the
  connection \<open>conn-2\<close>, absent before, is in the connection map afterwards.
\<close>

theorem createSession_timeout_leaves_connection:
  "case createSession example_env ''client-2'' 2 example_state of (r, st') \<Rightarrow>
     r = Inl (Error ''Timeout ao conectar com OpenAI'') \<and>
     sessions st' = sessions example_state \<and> clientToSession st' ''client-2'' = None \<and>
     connections example_state ''conn-2'' = None \<and>
     connections st' ''conn-2'' = Some \<lparr>c_ws = 3, c_clientId = ''client-2'', c_created = 1700000050000\<rparr>"
  by (simp add: createSession_def createConnection_def logger_simps Let_def example_state_def
      example_env_def)

section \<open>Upstream messages\<close>

lemma handleOpenAIMessage_updated:
  assumes "sessions st sid = Some s" and "updateSessionState s m = Inr (s', ls)" and "s_ws s' = s_ws s"
  shows "sessions (handleOpenAIMessage sid m st) = (sessions st)(sid \<mapsto> s')"
    and "sockets (handleOpenAIMessage sid m st) = written_if_open (TextFrame m) (s_ws s) st"
    and "set ls \<subseteq> set (logs (handleOpenAIMessage sid m st))"
  using assms
  by (auto simp: handleOpenAIMessage_def written_if_open_def ws_send_def logger_simps Let_def)

lemma handleOpenAIMessage_thrown:
  assumes "sessions st sid = Some s" and "updateSessionState s m = Inl e"
  shows "handleOpenAIMessage sid m st = logger Err ''Erro ao processar mensagem da OpenAI: '' st"
  using assms by (simp add: handleOpenAIMessage_def)

lemma updateSessionState_session_created:
  assumes "has_type m ''session.created''"
  shows "updateSessionState s m =
           (case member2 m ''session'' ''id'' of
              Inl e \<Rightarrow> Inl e
            | Inr v \<Rightarrow> Inr (s\<lparr>state := (state s)\<lparr>sessionId := v\<rparr>\<rparr>, [(Info, ''Sessao OpenAI criada: '')]))"
  using assms by (simp add: updateSessionState_def has_type_def member2_def split: sum.splits)

lemma updateSessionState_conversation_created:
  assumes "has_type m ''conversation.created''"
  shows "updateSessionState s m =
           (case member2 m ''conversation'' ''id'' of
              Inl e \<Rightarrow> Inl e
            | Inr v \<Rightarrow> Inr (s\<lparr>state := (state s)\<lparr>conversationId := v\<rparr>\<rparr>, [(Info, ''Conversa criada: '')]))"
  using assms by (simp add: updateSessionState_def has_type_def member2_def split: sum.splits)

lemma updateSessionState_error:
  assumes "has_type m ''error''"
  shows "updateSessionState s m =
           (case member2 m ''error'' ''message'' of
              Inl e \<Rightarrow> Inl e
            | Inr v \<Rightarrow> Inr (s, [(Err, ''Erro da API OpenAI: '')]))"
  using assms by (simp add: updateSessionState_def has_type_def member2_def split: sum.splits)

lemma updateSessionState_other:
  assumes "get_prop (Val m) ''type'' = Inr t"
    and "t \<noteq> Val (JStr ''session.created'')" and "t \<noteq> Val (JStr ''conversation.created'')"
    and "t \<noteq> Val (JStr ''error'')"
  shows "updateSessionState s m = Inr (s, [])"
  using assms by (simp add: updateSessionState_def)

lemma updateSessionState_no_type:
  assumes "get_prop (Val m) ''type'' = Inl e"
  shows "updateSessionState s m = Inl e"
  using assms by (simp add: updateSessionState_def)

text \<open>
  C4, as amended. An upstream event for an unknown session id is dropped: the state is
  unchanged but for one log entry, and nothing is raised. For a registered session:
  \<open>session.created\<close> sets the state's session id to \<open>message.session.id\<close>,
  \<open>conversation.created\<close> sets the conversation id to \<open>message.conversation.id\<close>,
  \<open>error\<close> is logged and changes no session, every other type changes no session;
  in all these cases the event is written verbatim to the client's socket if and
  only if that socket is open. This holds when the member the handler reads can be
  read. When it cannot (the event is \<open>null\<close>, or \<open>session\<close>, \<open>conversation\<close> or
  \<open>error\<close> is missing or \<open>null\<close> in an event of the respective type), the exception
  is caught and logged, no session changes and the event is not forwarded.
\<close>

theorem handleOpenAIMessage_effect:
  "(sessions st sid = None \<longrightarrow>
      handleOpenAIMessage sid m st = logger Err ''Sessao nao encontrada: '' st) \<and>
   (sessions st sid = Some s \<and> has_type m ''session.created'' \<and> member2 m ''session'' ''id'' = Inr v \<longrightarrow>
      sessions (handleOpenAIMessage sid m st) = (sessions st)(sid \<mapsto> s\<lparr>state := (state s)\<lparr>sessionId := v\<rparr>\<rparr>) \<and>
      sockets (handleOpenAIMessage sid m st) = written_if_open (TextFrame m) (s_ws s) st) \<and>
   (sessions st sid = Some s \<and> has_type m ''conversation.created'' \<and> member2 m ''conversation'' ''id'' = Inr v \<longrightarrow>
      sessions (handleOpenAIMessage sid m st) = (sessions st)(sid \<mapsto> s\<lparr>state := (state s)\<lparr>conversationId := v\<rparr>\<rparr>) \<and>
      sockets (handleOpenAIMessage sid m st) = written_if_open (TextFrame m) (s_ws s) st) \<and>
   (sessions st sid = Some s \<and> has_type m ''error'' \<and> member2 m ''error'' ''message'' = Inr v \<longrightarrow>
      sessions (handleOpenAIMessage sid m st) = sessions st \<and>
      (Err, ''Erro da API OpenAI: '') \<in> set (logs (handleOpenAIMessage sid m st)) \<and>
      sockets (handleOpenAIMessage sid m st) = written_if_open (TextFrame m) (s_ws s) st) \<and>
   (sessions st sid = Some s \<and> get_prop (Val m) ''type'' = Inr t \<and>
      t \<noteq> Val (JStr ''session.created'') \<and> t \<noteq> Val (JStr ''conversation.created'') \<and>
      t \<noteq> Val (JStr ''error'') \<longrightarrow>
      sessions (handleOpenAIMessage sid m st) = sessions st \<and>
      sockets (handleOpenAIMessage sid m st) = written_if_open (TextFrame m) (s_ws s) st) \<and>
   (sessions st sid = Some s \<and>
      (get_prop (Val m) ''type'' = Inl e \<or>
       has_type m ''session.created'' \<and> member2 m ''session'' ''id'' = Inl e \<or>
       has_type m ''conversation.created'' \<and> member2 m ''conversation'' ''id'' = Inl e \<or>
       has_type m ''error'' \<and> member2 m ''error'' ''message'' = Inl e) \<longrightarrow>
      handleOpenAIMessage sid m st = logger Err ''Erro ao processar mensagem da OpenAI: '' st)"
proof (intro conjI impI)
  assume "sessions st sid = None"
  then show "handleOpenAIMessage sid m st = logger Err ''Sessao nao encontrada: '' st"
    by (simp add: handleOpenAIMessage_def)
next
  assume a: "sessions st sid = Some s \<and> has_type m ''session.created'' \<and> member2 m ''session'' ''id'' = Inr v"
  then have u: "updateSessionState s m =
      Inr (s\<lparr>state := (state s)\<lparr>sessionId := v\<rparr>\<rparr>, [(Info, ''Sessao OpenAI criada: '')])"
    by (simp add: updateSessionState_session_created)
  from a handleOpenAIMessage_updated(1) [OF _ u]
  show "sessions (handleOpenAIMessage sid m st) = (sessions st)(sid \<mapsto> s\<lparr>state := (state s)\<lparr>sessionId := v\<rparr>\<rparr>)"
    by simp
  from a handleOpenAIMessage_updated(2) [OF _ u]
  show "sockets (handleOpenAIMessage sid m st) = written_if_open (TextFrame m) (s_ws s) st"
    by simp
next
  assume a: "sessions st sid = Some s \<and> has_type m ''conversation.created'' \<and>
    member2 m ''conversation'' ''id'' = Inr v"
  then have u: "updateSessionState s m =
      Inr (s\<lparr>state := (state s)\<lparr>conversationId := v\<rparr>\<rparr>, [(Info, ''Conversa criada: '')])"
    by (simp add: updateSessionState_conversation_created)
  from a handleOpenAIMessage_updated(1) [OF _ u]
  show "sessions (handleOpenAIMessage sid m st) =
      (sessions st)(sid \<mapsto> s\<lparr>state := (state s)\<lparr>conversationId := v\<rparr>\<rparr>)"
    by simp
  from a handleOpenAIMessage_updated(2) [OF _ u]
  show "sockets (handleOpenAIMessage sid m st) = written_if_open (TextFrame m) (s_ws s) st"
    by simp
next
  assume a: "sessions st sid = Some s \<and> has_type m ''error'' \<and> member2 m ''error'' ''message'' = Inr v"
  then have u: "updateSessionState s m = Inr (s, [(Err, ''Erro da API OpenAI: '')])"
    by (simp add: updateSessionState_error)
  from a handleOpenAIMessage_updated(1) [OF _ u]
  show "sessions (handleOpenAIMessage sid m st) = sessions st"
    by (simp add: map_upd_triv)
  from a handleOpenAIMessage_updated(3) [OF _ u]
  show "(Err, ''Erro da API OpenAI: '') \<in> set (logs (handleOpenAIMessage sid m st))"
    by simp
  from a handleOpenAIMessage_updated(2) [OF _ u]
  show "sockets (handleOpenAIMessage sid m st) = written_if_open (TextFrame m) (s_ws s) st"
    by simp
next
  assume a: "sessions st sid = Some s \<and> get_prop (Val m) ''type'' = Inr t \<and>
      t \<noteq> Val (JStr ''session.created'') \<and> t \<noteq> Val (JStr ''conversation.created'') \<and>
      t \<noteq> Val (JStr ''error'')"
  then have u: "updateSessionState s m = Inr (s, [])"
    by (simp add: updateSessionState_other)
  from a handleOpenAIMessage_updated(1) [OF _ u]
  show "sessions (handleOpenAIMessage sid m st) = sessions st"
    by (simp add: map_upd_triv)
  from a handleOpenAIMessage_updated(2) [OF _ u]
  show "sockets (handleOpenAIMessage sid m st) = written_if_open (TextFrame m) (s_ws s) st"
    by simp
next
  assume a: "sessions st sid = Some s \<and>
      (get_prop (Val m) ''type'' = Inl e \<or>
       has_type m ''session.created'' \<and> member2 m ''session'' ''id'' = Inl e \<or>
       has_type m ''conversation.created'' \<and> member2 m ''conversation'' ''id'' = Inl e \<or>
       has_type m ''error'' \<and> member2 m ''error'' ''message'' = Inl e)"
  then have "updateSessionState s m = Inl e"
    by (auto simp: updateSessionState_no_type updateSessionState_session_created
        updateSessionState_conversation_created updateSessionState_error)
  with a show "handleOpenAIMessage sid m st = logger Err ''Erro ao processar mensagem da OpenAI: '' st"
    by (simp add: handleOpenAIMessage_thrown)
qed

theorem handleOpenAIMessage_effect_witness:
  "sessions example_state ''session-1'' = Some example_session \<and>
   has_type (JObj [(''type'', JStr ''session.created''), (''session'', JObj [(''id'', JStr ''sess_001'')])])
     ''session.created'' \<and>
   member2 (JObj [(''type'', JStr ''session.created''), (''session'', JObj [(''id'', JStr ''sess_001'')])])
     ''session'' ''id'' = Inr (Val (JStr ''sess_001'')) \<and>
   sessionId (state (the (sessions
     (handleOpenAIMessage ''session-1''
        (JObj [(''type'', JStr ''session.created''), (''session'', JObj [(''id'', JStr ''sess_001'')])])
        example_state) ''session-1''))) = Val (JStr ''sess_001'') \<and>
   sent (sockets
     (handleOpenAIMessage ''session-1''
        (JObj [(''type'', JStr ''session.created''), (''session'', JObj [(''id'', JStr ''sess_001'')])])
        example_state) 0) =
     [TextFrame (JObj [(''type'', JStr ''session.created''), (''session'', JObj [(''id'', JStr ''sess_001'')])])] \<and>
   sessions example_state ''session-7'' = None \<and>
   handleOpenAIMessage ''session-7'' (JObj [(''type'', JStr ''session.created'')]) example_state =
     logger Err ''Sessao nao encontrada: '' example_state \<and>
   has_type (JObj [(''type'', JStr ''error'')]) ''error'' \<and>
   member2 (JObj [(''type'', JStr ''error'')]) ''error'' ''message'' =
     Inl (TypeError ''Cannot read properties of undefined (reading 'message')'') \<and>
   handleOpenAIMessage ''session-1'' (JObj [(''type'', JStr ''error'')]) example_state =
     logger Err ''Erro ao processar mensagem da OpenAI: '' example_state"
proof -
  let ?m = "JObj [(''type'', JStr ''session.created''), (''session'', JObj [(''id'', JStr ''sess_001'')])]"
  have a: "sessions example_state ''session-1'' = Some example_session"
    by (simp add: example_state_def)
  have b: "has_type ?m ''session.created''"
    by (simp add: has_type_def)
  have c: "member2 ?m ''session'' ''id'' = Inr (Val (JStr ''sess_001''))"
    by (simp add: member2_def)
  have d: "sessions example_state ''session-7'' = None"
    by (simp add: example_state_def)
  have e: "has_type (JObj [(''type'', JStr ''error'')]) ''error''"
    by (simp add: has_type_def)
  have f: "member2 (JObj [(''type'', JStr ''error'')]) ''error'' ''message'' =
     Inl (TypeError ''Cannot read properties of undefined (reading 'message')'')"
    by (simp add: member2_def)
  note t1 = handleOpenAIMessage_effect [where st = example_state and sid = "''session-1''" and m = ?m
      and s = example_session and v = "Val (JStr ''sess_001'')"]
  note t2 = handleOpenAIMessage_effect [where st = example_state and sid = "''session-7''"
      and m = "JObj [(''type'', JStr ''session.created'')]"]
  note t3 = handleOpenAIMessage_effect [where st = example_state and sid = "''session-1''"
      and m = "JObj [(''type'', JStr ''error'')]" and s = example_session
      and e = "TypeError ''Cannot read properties of undefined (reading 'message')''"]
  from t1 a b c have g: "sessions (handleOpenAIMessage ''session-1'' ?m example_state) =
      (sessions example_state)(''session-1'' \<mapsto> example_session\<lparr>state := (state example_session)\<lparr>sessionId := Val (JStr ''sess_001'')\<rparr>\<rparr>)"
    and h: "sockets (handleOpenAIMessage ''session-1'' ?m example_state) =
      written_if_open (TextFrame ?m) (s_ws example_session) example_state"
    by blast+
  from t2 d have i: "handleOpenAIMessage ''session-7'' (JObj [(''type'', JStr ''session.created'')]) example_state =
     logger Err ''Sessao nao encontrada: '' example_state" by blast
  from t3 a e f have j: "handleOpenAIMessage ''session-1'' (JObj [(''type'', JStr ''error'')]) example_state =
     logger Err ''Erro ao processar mensagem da OpenAI: '' example_state" by blast
  have k: "sent (written_if_open (TextFrame ?m) (s_ws example_session) example_state 0) = [TextFrame ?m]"
    by (simp add: written_if_open_def example_session_def example_state_def open_socket_def)
  show ?thesis
    using a b c d e f i j by (simp add: g h k)
qed
text \<open>
  C4 as stated fails: the session is registered and its client socket is open, yet the
  event \<open>{"type": "session.created"}\<close>, which has no \<open>session\<close> member, is not
  forwarded.
\<close>

theorem handleOpenAIMessage_not_forwarded:
  "sessions example_state ''session-1'' = Some example_session \<and>
   readyState (sockets example_state (s_ws example_session)) = OPEN \<and>
   sent (sockets (handleOpenAIMessage ''session-1'' (JObj [(''type'', JStr ''session.created'')]) example_state)
          (s_ws example_session)) = []"
  by (simp add: handleOpenAIMessage_def updateSessionState_def example_state_def example_session_def
      open_socket_def logger_simps)

section \<open>Sending an event upstream\<close>




section \<open>Client messages\<close>

text \<open>
  C10. A decoded message for a client identifier without an active session: the
  dispatcher logs and returns. The state is the one before but for the log entry
  (so nothing is written to any socket, upstream or client, and no map changes), and
  the message object is untouched.
\<close>

theorem handleClientMessage_no_session:
  assumes "getClientSession clientId st = None"
  shows "handleClientMessage now uuid clientId message st =
           (logger Err ''Cliente nao possui sessao ativa'' st, message) \<and>
         sockets (fst (handleClientMessage now uuid clientId message st)) = sockets st \<and>
         sessions (fst (handleClientMessage now uuid clientId message st)) = sessions st \<and>
         clientToSession (fst (handleClientMessage now uuid clientId message st)) = clientToSession st \<and>
         connections (fst (handleClientMessage now uuid clientId message st)) = connections st \<and>
         clients (fst (handleClientMessage now uuid clientId message st)) = clients st"
  using assms by (simp add: handleClientMessage_def dispatch_try_def logger_simps)

theorem handleClientMessage_no_session_witness:
  "getClientSession ''client-9'' example_state = None \<and>
   handleClientMessage 1700000000123 ''3f2a9c1e-0000-4000-8000-000000000000'' ''client-9''
       (JObj [(''type'', JStr ''response.create'')]) example_state =
     (logger Err ''Cliente nao possui sessao ativa'' example_state, JObj [(''type'', JStr ''response.create'')])"
proof -
  have a: "getClientSession ''client-9'' example_state = None"
    by (simp add: getClientSession_def example_state_def)
  from handleClientMessage_no_session [OF a] a show ?thesis by simp
qed

text \<open>
  A frame that does not parse, from a connected client with an open socket: the
  \<open>message\<close> listener writes two frames to the client, the \<open>invalid_message_format\<close>
  error and then the frame of type \<open>message\<close> with code \<open>no_code_here\<close>.
\<close>

lemma onMessage_malformed:
  assumes "parse data = Inl e" and "map_of (clients st) clientId = Some client"
    and "readyState (sockets st (cl_ws client)) = OPEN"
  shows "sockets (onMessage parse now uuid clientId (cl_ws client) data st) =
           (sockets st)(cl_ws client := (sockets st (cl_ws client))
              \<lparr>sent := sent (sockets st (cl_ws client)) @ [invalid_format_frame e, test_frame]\<rparr>)"
  using assms
  by (simp add: onMessage_def server_handleClientMessage_def ws_send_def logger_simps Let_def)

text \<open>
  C5. The claim asks for exactly one response frame. At the example state the client
  \<open>client-1\<close> sends \<open>hello\<close>, which \<open>JSON.parse\<close> rejects; two frames are written to
  its socket, and the socket stays open.
\<close>

theorem onMessage_malformed_two_frames:
  "sent (sockets (onMessage (\<lambda>d. Inl (SyntaxError ''Unexpected token h in JSON at position 0''))
        1700000000123 ''3f2a9c1e-0000-4000-8000-000000000000'' ''client-1'' 0 ''hello'' example_state) 0) =
     [invalid_format_frame (SyntaxError ''Unexpected token h in JSON at position 0''), test_frame]
   \<and> readyState (sockets (onMessage (\<lambda>d. Inl (SyntaxError ''Unexpected token h in JSON at position 0''))
        1700000000123 ''3f2a9c1e-0000-4000-8000-000000000000'' ''client-1'' 0 ''hello'' example_state) 0) = OPEN"
  by (simp add: onMessage_def server_handleClientMessage_def ws_send_def logger_simps Let_def
      example_state_def example_client_def open_socket_def)

section \<open>Teardown and the liveness check\<close>

lemma closeConnection_maps:
  "sessions (closeConnection k st) = sessions st"
  "clientToSession (closeConnection k st) = clientToSession st"
  "clients (closeConnection k st) = clients st"
  "connections (closeConnection k st) = (connections st)(k := None)"
  by (auto simp: closeConnection_def logger_simps Let_def split: option.splits)

lemma ws_close_readyState:
  "readyState (ws_close s) = readyState s \<or> readyState (ws_close s) = CLOSING"
  by (cases "readyState s") (simp_all add: ws_close_def)

lemma closeConnection_readyState:
  "readyState (sockets (closeConnection k st) h) = readyState (sockets st h) \<or>
   readyState (sockets (closeConnection k st) h) = CLOSING"
  using ws_close_readyState
  by (auto simp: closeConnection_def logger_simps Let_def split: option.splits)

lemma closeSession_maps:
  assumes "sessions st sid = Some s"
  shows "sessions (closeSession sid st) = (sessions st)(sid := None)"
    and "clientToSession (closeSession sid st) = (clientToSession st)(s_clientId s := None)"
    and "clients (closeSession sid st) = clients st"
    and "openaiConnectionId s \<noteq> [] \<Longrightarrow>
           connections (closeSession sid st) = (connections st)(openaiConnectionId s := None)"
    and "\<And>k. connections st k = None \<Longrightarrow> connections (closeSession sid st) k = None"
  using assms
  by (simp_all add: closeSession_def closeConnection_maps logger_simps Let_def truthy_id_def)

lemma closeSession_readyState:
  "readyState (sockets (closeSession sid st) h) = readyState (sockets st h) \<or>
   readyState (sockets (closeSession sid st) h) = CLOSING"
proof (cases "sessions st sid")
  case None
  then show ?thesis by (simp add: closeSession_def logger_simps)
next
  case (Some s)
  have "sockets (closeSession sid st) =
          (if truthy_id (openaiConnectionId s)
           then sockets (closeConnection (openaiConnectionId s) (logger Info ''Encerrando sessao'' st))
           else sockets st)"
    using Some by (simp add: closeSession_def logger_simps Let_def)
  moreover have "sockets (logger Info ''Encerrando sessao'' st) = sockets st"
    by (simp add: logger_simps)
  ultimately show ?thesis
    using closeConnection_readyState [of "openaiConnectionId s" "logger Info ''Encerrando sessao'' st" h]
    by (auto split: if_splits)
qed

lemma closeSession_missing:
  assumes "sessions st sid = None"
  shows "closeSession sid st = logger Warn ''Tentativa de fechar sessao inexistente: '' st"
  using assms by (simp add: closeSession_def)

text \<open>The teardown of a client, in a consistent registry.\<close>

lemma handleClientDisconnect_unmapped:
  assumes "clientToSession st cid = None"
  shows "sessions (handleClientDisconnect cid st) = sessions st"
    and "clientToSession (handleClientDisconnect cid st) = clientToSession st"
    and "connections (handleClientDisconnect cid st) = connections st"
    and "sockets (handleClientDisconnect cid st) = sockets st"
    and "clients (handleClientDisconnect cid st) = AList.delete cid (clients st)"
  using assms
  by (simp_all add: handleClientDisconnect_def closeClientSessions_def logger_simps Let_def)

lemma handleClientDisconnect_mapped:
  assumes "registry_ok st" and "clientToSession st cid = Some sid" and "sessions st sid = Some s"
  shows "sessions (handleClientDisconnect cid st) = (sessions st)(sid := None)"
    and "clientToSession (handleClientDisconnect cid st) = (clientToSession st)(cid := None)"
    and "connections (handleClientDisconnect cid st) = (connections st)(openaiConnectionId s := None)"
    and "clients (handleClientDisconnect cid st) = AList.delete cid (clients st)"
proof -
  from assms(1,2) obtain s0 where "sid \<noteq> []" "sessions st sid = Some s0" "s_clientId s0 = cid"
      "openaiConnectionId s0 \<noteq> []"
    unfolding registry_ok_def by blast
  with assms(3) have ok: "sid \<noteq> []" "s_clientId s = cid" "openaiConnectionId s \<noteq> []"
    by simp_all
  let ?st1 = "logger Info ''Cliente desconectado'' st"
  have s1: "sessions ?st1 sid = Some s"
    using assms(3) by (simp add: logger_simps)
  have h: "handleClientDisconnect cid st =
      (closeSession sid ?st1)\<lparr>clients := AList.delete cid (clients (closeSession sid ?st1))\<rparr>"
    using assms(2) ok(1)
    by (simp add: handleClientDisconnect_def closeClientSessions_def logger_simps Let_def truthy_id_def)
  show "sessions (handleClientDisconnect cid st) = (sessions st)(sid := None)"
    by (simp add: h closeSession_maps(1) [OF s1] logger_simps)
  show "clientToSession (handleClientDisconnect cid st) = (clientToSession st)(cid := None)"
    by (simp add: h closeSession_maps(2) [OF s1] ok logger_simps)
  show "connections (handleClientDisconnect cid st) = (connections st)(openaiConnectionId s := None)"
    by (simp add: h closeSession_maps(4) [OF s1 ok(3)] logger_simps)
  show "clients (handleClientDisconnect cid st) = AList.delete cid (clients st)"
    by (simp add: h closeSession_maps(3) [OF s1] logger_simps)
qed

lemma handleClientDisconnect_readyState:
  "readyState (sockets (handleClientDisconnect cid st) h) = readyState (sockets st h) \<or>
   readyState (sockets (handleClientDisconnect cid st) h) = CLOSING"
proof (cases "clientToSession st cid")
  case None
  then show ?thesis by (simp add: handleClientDisconnect_unmapped)
next
  case (Some sid)
  show ?thesis
    using closeSession_readyState [of sid "logger Info ''Cliente desconectado'' st" h]
    by (auto simp: handleClientDisconnect_def closeClientSessions_def logger_simps Let_def Some)
qed

lemma handleClientDisconnect_client_gone:
  "map_of (clients (handleClientDisconnect cid st)) cid = None"
proof -
  have "clients (closeClientSessions cid st') = clients st'" for st'
    by (cases "sessions st' (the (clientToSession st' cid))")
       (auto simp: closeClientSessions_def closeSession_missing closeSession_maps logger_simps
          split: option.splits)
  then show ?thesis
    by (simp add: handleClientDisconnect_def Let_def delete_conv')
qed

lemma handleClientDisconnect_registry_ok:
  assumes "registry_ok st"
  shows "registry_ok (handleClientDisconnect cid st)"
proof (cases "clientToSession st cid")
  case None
  with assms show ?thesis
    by (simp add: registry_ok_def handleClientDisconnect_unmapped)
next
  case (Some sid)
  with assms obtain s where s: "sessions st sid = Some s" "s_clientId s = cid"
    unfolding registry_ok_def by blast
  show ?thesis
    unfolding registry_ok_def
  proof (intro allI impI)
    fix cid' sid'
    assume "clientToSession (handleClientDisconnect cid st) cid' = Some sid'"
    then have m: "cid' \<noteq> cid" "clientToSession st cid' = Some sid'"
      by (auto simp: handleClientDisconnect_mapped(2) [OF assms Some s(1)] split: if_splits)
    with assms obtain s' where s': "sid' \<noteq> []" "sessions st sid' = Some s'" "s_clientId s' = cid'"
      "openaiConnectionId s' \<noteq> []"
      unfolding registry_ok_def by blast
    from s s' m have "sid' \<noteq> sid" by auto
    with s' show "sid' \<noteq> [] \<and> (\<exists>s. sessions (handleClientDisconnect cid st) sid' = Some s \<and>
        s_clientId s = cid' \<and> openaiConnectionId s \<noteq> [])"
      by (simp add: handleClientDisconnect_mapped(1) [OF assms Some s(1)])
  qed
qed

lemma handleClientDisconnect_shrinks:
  assumes "registry_ok st"
  shows "shrinks st (handleClientDisconnect cid st)"
proof (cases "clientToSession st cid")
  case None
  then show ?thesis
    by (simp add: shrinks_def handleClientDisconnect_unmapped delete_conv')
next
  case (Some sid)
  with assms obtain s where s: "sessions st sid = Some s"
    unfolding registry_ok_def by blast
  show ?thesis
    by (simp add: shrinks_def handleClientDisconnect_mapped [OF assms Some s] delete_conv')
qed

lemma handleClientDisconnect_others:
  assumes "registry_ok st" and "cid' \<noteq> cid" and "clientToSession st cid' = Some sid'"
  shows "clientToSession (handleClientDisconnect cid st) cid' = Some sid'"
    and "sessions (handleClientDisconnect cid st) sid' = sessions st sid'"
proof -
  from assms obtain s' where s': "sessions st sid' = Some s'" "s_clientId s' = cid'"
    unfolding registry_ok_def by blast
  show "clientToSession (handleClientDisconnect cid st) cid' = Some sid'"
  proof (cases "clientToSession st cid")
    case None
    then show ?thesis using assms(3) by (simp add: handleClientDisconnect_unmapped)
  next
    case (Some sid)
    with assms(1) obtain s where s: "sessions st sid = Some s"
      unfolding registry_ok_def by blast
    show ?thesis
      using assms(2,3) by (simp add: handleClientDisconnect_mapped(2) [OF assms(1) Some s])
  qed
  show "sessions (handleClientDisconnect cid st) sid' = sessions st sid'"
  proof (cases "clientToSession st cid")
    case None
    then show ?thesis by (simp add: handleClientDisconnect_unmapped)
  next
    case (Some sid)
    with assms(1) obtain s where s: "sessions st sid = Some s" "s_clientId s = cid"
      unfolding registry_ok_def by blast
    with s' assms(2) have "sid' \<noteq> sid" by auto
    then show ?thesis
      by (simp add: handleClientDisconnect_mapped(1) [OF assms(1) Some s(1)])
  qed
qed
lemma registry_ok_cong:
  assumes "sessions st' = sessions st" and "clientToSession st' = clientToSession st"
  shows "registry_ok st' = registry_ok st"
  using assms by (simp add: registry_ok_def)

lemma shrinks_cong:
  assumes "sessions st0 = sessions st" and "clientToSession st0 = clientToSession st"
    and "connections st0 = connections st" and "clients st0 = clients st"
  shows "shrinks st st' = shrinks st0 st'"
  using assms by (simp add: shrinks_def)

lemma shrinks_same:
  assumes "sessions st' = sessions st" and "clientToSession st' = clientToSession st"
    and "connections st' = connections st" and "clients st' = clients st"
  shows "shrinks st st'"
  using assms by (simp add: shrinks_def)

lemma evictable_preserved:
  assumes "evictable n c st"
    and "readyState (sockets st' (cl_ws c)) = readyState (sockets st (cl_ws c)) \<or>
         readyState (sockets st' (cl_ws c)) = CLOSING"
  shows "evictable n c st'"
  using assms by (auto simp: evictable_def)

text \<open>
  What the callback does to one client: if the client is evictable it runs
  \<open>handleClientDisconnect\<close>, the teardown of a normal disconnect, on a state with the
  same maps; otherwise no map changes.
\<close>

lemma checkClient_evict:
  assumes "evictable n c st"
  shows "\<exists>st0. checkClient n k c st = handleClientDisconnect k st0 \<and>
           sessions st0 = sessions st \<and> clientToSession st0 = clientToSession st \<and>
           connections st0 = connections st \<and> clients st0 = clients st \<and>
           (\<forall>h. readyState (sockets st0 h) = readyState (sockets st h))"
proof (cases "readyState (sockets st (cl_ws c)) = OPEN")
  case True
  let ?st0 = "logger Warn ''Cliente nao respondeu ao ping, fechando conexao''
      (st\<lparr>sockets := (sockets st)(cl_ws c := ws_ping (sockets st (cl_ws c)))\<rparr>)"
  from True assms have "checkClient n k c st = handleClientDisconnect k ?st0"
    by (simp add: checkClient_def evictable_def Let_def)
  moreover have "sessions ?st0 = sessions st" "clientToSession ?st0 = clientToSession st"
      "connections ?st0 = connections st" "clients ?st0 = clients st"
      "\<forall>h. readyState (sockets ?st0 h) = readyState (sockets st h)"
    by (simp_all add: logger_simps ws_ping_def)
  ultimately show ?thesis by blast
next
  case False
  with assms have "checkClient n k c st = handleClientDisconnect k st"
    by (auto simp: checkClient_def evictable_def)
  then show ?thesis by blast
qed

lemma checkClient_keep:
  assumes "\<not> evictable n c st"
  shows "sessions (checkClient n k c st) = sessions st"
    and "clientToSession (checkClient n k c st) = clientToSession st"
    and "connections (checkClient n k c st) = connections st"
    and "clients (checkClient n k c st) = clients st"
    and "readyState (sockets (checkClient n k c st) h) = readyState (sockets st h)"
proof -
  have "checkClient n k c st = st \<or>
        checkClient n k c st = st\<lparr>sockets := (sockets st)(cl_ws c := ws_ping (sockets st (cl_ws c)))\<rparr>"
    using assms by (cases "readyState (sockets st (cl_ws c))") (auto simp: checkClient_def evictable_def Let_def)
  then show "sessions (checkClient n k c st) = sessions st"
    and "clientToSession (checkClient n k c st) = clientToSession st"
    and "connections (checkClient n k c st) = connections st"
    and "clients (checkClient n k c st) = clients st"
    and "readyState (sockets (checkClient n k c st) h) = readyState (sockets st h)"
    by (auto simp: ws_ping_def)
qed

lemma checkClient_registry_ok:
  assumes "registry_ok st"
  shows "registry_ok (checkClient n k c st)"
proof (cases "evictable n c st")
  case True
  from checkClient_evict [OF True, of k] obtain st0 where
    st0: "checkClient n k c st = handleClientDisconnect k st0" "sessions st0 = sessions st"
      "clientToSession st0 = clientToSession st"
    by blast
  with assms have "registry_ok st0" by (simp add: registry_ok_cong [OF st0(2,3)])
  with st0(1) show ?thesis by (simp add: handleClientDisconnect_registry_ok)
next
  case False
  with assms show ?thesis
    by (simp add: registry_ok_cong [OF checkClient_keep(1,2) [OF False]])
qed

lemma checkClient_shrinks:
  assumes "registry_ok st"
  shows "shrinks st (checkClient n k c st)"
proof (cases "evictable n c st")
  case True
  from checkClient_evict [OF True, of k] obtain st0 where
    st0: "checkClient n k c st = handleClientDisconnect k st0" "sessions st0 = sessions st"
      "clientToSession st0 = clientToSession st" "connections st0 = connections st"
      "clients st0 = clients st"
    by blast
  with assms have "registry_ok st0" by (simp add: registry_ok_cong [OF st0(2,3)])
  then have "shrinks st0 (handleClientDisconnect k st0)"
    by (rule handleClientDisconnect_shrinks)
  with st0 show ?thesis by (simp add: shrinks_cong [OF st0(2-5)])
next
  case False
  show ?thesis by (rule shrinks_same) (simp_all add: checkClient_keep [OF False])
qed

lemma checkClient_readyState:
  "readyState (sockets (checkClient n k c st) h) = readyState (sockets st h) \<or>
   readyState (sockets (checkClient n k c st) h) = CLOSING"
proof (cases "evictable n c st")
  case True
  from checkClient_evict [OF True, of k] obtain st0 where
    st0: "checkClient n k c st = handleClientDisconnect k st0"
      "\<forall>h. readyState (sockets st0 h) = readyState (sockets st h)"
    by blast
  with handleClientDisconnect_readyState [of k st0 h] show ?thesis by simp
next
  case False
  then show ?thesis by (simp add: checkClient_keep)
qed

text \<open>The entries of an evicted client are gone after its teardown.\<close>

lemma checkClient_evicts:
  assumes "registry_ok st" and "evictable n c st"
    and "clientToSession st cid = Some sid" and "sessions st sid = Some s"
  shows "map_of (clients (checkClient n cid c st)) cid = None"
    and "clientToSession (checkClient n cid c st) cid = None"
    and "sessions (checkClient n cid c st) sid = None"
    and "connections (checkClient n cid c st) (openaiConnectionId s) = None"
proof -
  from checkClient_evict [OF assms(2), of cid] obtain st0 where
    st0: "checkClient n cid c st = handleClientDisconnect cid st0" "sessions st0 = sessions st"
      "clientToSession st0 = clientToSession st"
    by blast
  with assms have ok: "registry_ok st0" "clientToSession st0 cid = Some sid" "sessions st0 sid = Some s"
    by (simp_all add: registry_ok_cong [OF st0(2,3)])
  show "map_of (clients (checkClient n cid c st)) cid = None"
    by (simp add: st0(1) handleClientDisconnect_client_gone)
  show "clientToSession (checkClient n cid c st) cid = None"
    by (simp add: st0(1) handleClientDisconnect_mapped(2) [OF ok])
  show "sessions (checkClient n cid c st) sid = None"
    by (simp add: st0(1) handleClientDisconnect_mapped(1) [OF ok])
  show "connections (checkClient n cid c st) (openaiConnectionId s) = None"
    by (simp add: st0(1) handleClientDisconnect_mapped(3) [OF ok])
qed

text \<open>Checking another client leaves the entries of this one in place.\<close>

lemma checkClient_others:
  assumes "registry_ok st" and "k \<noteq> cid"
    and "clientToSession st cid = Some sid" and "sessions st sid = Some s"
  shows "clientToSession (checkClient n k c st) cid = Some sid"
    and "sessions (checkClient n k c st) sid = Some s"
proof -
  have "clientToSession (checkClient n k c st) cid = Some sid \<and>
        sessions (checkClient n k c st) sid = Some s"
  proof (cases "evictable n c st")
    case True
    from checkClient_evict [OF True, of k] obtain st0 where
      st0: "checkClient n k c st = handleClientDisconnect k st0" "sessions st0 = sessions st"
        "clientToSession st0 = clientToSession st"
      by blast
    with assms have ok: "registry_ok st0" "clientToSession st0 cid = Some sid"
      by (simp_all add: registry_ok_cong [OF st0(2,3)])
    from assms(2) have ne: "cid \<noteq> k" by simp
    have "clientToSession (handleClientDisconnect k st0) cid = Some sid"
      by (rule handleClientDisconnect_others(1) [OF ok(1) ne ok(2)])
    moreover have "sessions (handleClientDisconnect k st0) sid = sessions st sid"
      by (simp add: handleClientDisconnect_others(2) [OF ok(1) ne ok(2)] st0(2))
    ultimately show ?thesis
      by (simp add: st0(1) assms(4))
  next
    case False
    with assms show ?thesis by (simp add: checkClient_keep)
  qed
  then show "clientToSession (checkClient n k c st) cid = Some sid"
    and "sessions (checkClient n k c st) sid = Some s"
    by simp_all
qed

lemma checkClients_evicts:
  assumes "registry_ok st"
    and "(cid, c) \<in> set xs \<and> evictable (now cid) c st \<and>
           clientToSession st cid = Some sid \<and> sessions st sid = Some s
         \<or> map_of (clients st) cid = None \<and> clientToSession st cid = None \<and>
           sessions st sid = None \<and> connections st (openaiConnectionId s) = None"
  shows "map_of (clients (checkClients now xs st)) cid = None \<and>
         clientToSession (checkClients now xs st) cid = None \<and>
         sessions (checkClients now xs st) sid = None \<and>
         connections (checkClients now xs st) (openaiConnectionId s) = None"
  using assms
proof (induction xs arbitrary: st)
  case Nil
  then show ?case by simp
next
  case (Cons x xs)
  obtain k ck where x: "x = (k, ck)" by (cases x)
  let ?st' = "checkClient (now k) k ck st"
  have ok': "registry_ok ?st'"
    using Cons.prems(1) by (rule checkClient_registry_ok)
  have sh: "shrinks st ?st'"
    using Cons.prems(1) by (rule checkClient_shrinks)
  let ?gone = "\<lambda>t. map_of (clients t) cid = None \<and> clientToSession t cid = None \<and>
           sessions t sid = None \<and> connections t (openaiConnectionId s) = None"
  let ?pending = "\<lambda>t ys. (cid, c) \<in> set ys \<and> evictable (now cid) c t \<and>
           clientToSession t cid = Some sid \<and> sessions t sid = Some s"
  have step: "?pending ?st' xs \<or> ?gone ?st'"
  proof (cases "?gone st")
    case True
    with sh show ?thesis by (simp add: shrinks_def)
  next
    case False
    with Cons.prems(2) have p: "?pending st (x # xs)" by blast
    have ev': "evictable (now cid) c ?st'"
      using p checkClient_readyState [of "now k" k ck st "cl_ws c"]
      by (auto intro: evictable_preserved)
    show ?thesis
    proof (cases "k = cid")
      case False
      with p x have "(cid, c) \<in> set xs" by auto
      moreover from checkClient_others [OF Cons.prems(1) False, of sid s "now k" ck] p
      have "clientToSession ?st' cid = Some sid" "sessions ?st' sid = Some s" by simp_all
      ultimately show ?thesis using ev' by simp
    next
      case True
      show ?thesis
      proof (cases "evictable (now k) ck st")
        case ev: True
        from p have "clientToSession st cid = Some sid" "sessions st sid = Some s" by simp_all
        from checkClient_evicts [OF Cons.prems(1) ev this] True
        show ?thesis by simp
      next
        case nev: False
        with p True x have "(cid, c) \<in> set xs" by auto
        with p ev' show ?thesis by (simp add: checkClient_keep [OF nev])
      qed
    qed
  qed
  have "checkClients now (x # xs) st = checkClients now xs ?st'"
    by (simp add: x)
  with Cons.IH [OF ok' step] show ?case by simp
qed
text \<open>The consistency of the registry is established and kept by the program.\<close>

lemma registry_ok_empty_state: "registry_ok empty_state"
  by (simp add: registry_ok_def empty_state_def)

lemma registry_ok_example_state: "registry_ok example_state"
  by (simp add: registry_ok_def example_state_def example_session_def)

lemma createSession_registry_ok:
  assumes "registry_ok st" and "uuid_session env \<noteq> []" and "uuid_connection env \<noteq> []"
    and "sessions st (uuid_session env) = None"
  shows "registry_ok (snd (createSession env clientId ws st))"
proof (cases "clientToSession st clientId")
  case (Some sid)
  with assms(1) show ?thesis
    by (simp add: createSession_def registry_ok_def logger_simps)
next
  case None
  have unused: "clientToSession st k \<noteq> Some (uuid_session env)" for k
    using assms(1,4) unfolding registry_ok_def by fastforce
  show ?thesis
  proof (cases "outcome env")
    case Opened
    with None assms(1,2,3) unused show ?thesis
      by (auto simp: createSession_def createConnection_def setMessageHandler_def registry_ok_def
          logger_simps Let_def)
  next
    case (Failed m)
    with None assms(1) show ?thesis
      by (simp add: createSession_def createConnection_def registry_ok_def logger_simps Let_def)
  next
    case TimedOut
    with None assms(1) show ?thesis
      by (simp add: createSession_def createConnection_def registry_ok_def logger_simps Let_def)
  qed
qed

text \<open>
  The eviction of a client whose session has been created. In a consistent registry,
  a client with a session whose last pong (a non-zero timestamp) is more than
  60000 ms old at the liveness check, or whose socket is closing or closed, is
  evicted by that check: afterwards \<open>clients\<close> has no record of it, \<open>clientToSession\<close>
  and \<open>sessions\<close> have no entry of its session, and \<open>connections\<close> has no entry of the
  session's upstream connection. The eviction is \<open>handleClientDisconnect\<close>, the
  handler of the socket's \<open>close\<close> event (lemma \<open>checkClient_evict\<close>). A socket
  accepted by the server is never connecting.
\<close>

theorem pingInterval_evicts:
  assumes "registry_ok st" and "(cid, c) \<in> set (clients st)"
    and "readyState (sockets st (cl_ws c)) \<noteq> CONNECTING" and "lastPong c \<noteq> 0"
    and "int (now cid) - int (lastPong c) > 60000 \<or>
         readyState (sockets st (cl_ws c)) = CLOSING \<or> readyState (sockets st (cl_ws c)) = CLOSED"
    and "clientToSession st cid = Some sid" and "sessions st sid = Some s"
  shows "map_of (clients (pingInterval now st)) cid = None \<and>
         clientToSession (pingInterval now st) cid = None \<and>
         sessions (pingInterval now st) sid = None \<and>
         connections (pingInterval now st) (openaiConnectionId s) = None"
proof -
  have "evictable (now cid) c st"
    using assms(3,4,5) by (cases "readyState (sockets st (cl_ws c))") (auto simp: evictable_def)
  with assms(2,6,7) have
    "(cid, c) \<in> set (clients st) \<and> evictable (now cid) c st \<and>
       clientToSession st cid = Some sid \<and> sessions st sid = Some s
     \<or> map_of (clients st) cid = None \<and> clientToSession st cid = None \<and>
       sessions st sid = None \<and> connections st (openaiConnectionId s) = None"
    by simp
  from checkClients_evicts [where now = now and xs = "clients st" and st = st and cid = cid
      and c = c and sid = sid and s = s, OF assms(1) this]
  show ?thesis
    by (simp add: pingInterval_def)
qed

theorem pingInterval_evicts_witness:
  "registry_ok example_state \<and> (''client-1'', example_client) \<in> set (clients example_state) \<and>
   readyState (sockets example_state (cl_ws example_client)) \<noteq> CONNECTING \<and>
   lastPong example_client \<noteq> 0 \<and>
   int 1700000090000 - int (lastPong example_client) > 60000 \<and>
   clientToSession example_state ''client-1'' = Some ''session-1'' \<and>
   sessions example_state ''session-1'' = Some example_session \<and>
   connections example_state ''conn-1'' \<noteq> None \<and>
   map_of (clients (pingInterval (\<lambda>k. 1700000090000) example_state)) ''client-1'' = None \<and>
   clientToSession (pingInterval (\<lambda>k. 1700000090000) example_state) ''client-1'' = None \<and>
   sessions (pingInterval (\<lambda>k. 1700000090000) example_state) ''session-1'' = None \<and>
   connections (pingInterval (\<lambda>k. 1700000090000) example_state) ''conn-1'' = None"
proof -
  have a: "(''client-1'', example_client) \<in> set (clients example_state)"
    by (simp add: example_state_def)
  have b: "readyState (sockets example_state (cl_ws example_client)) \<noteq> CONNECTING"
    by (simp add: example_state_def example_client_def open_socket_def)
  have c: "lastPong example_client \<noteq> 0"
    by (simp add: example_client_def)
  have d: "int ((\<lambda>k. 1700000090000) ''client-1'') - int (lastPong example_client) > 60000 \<or>
     readyState (sockets example_state (cl_ws example_client)) = CLOSING \<or>
     readyState (sockets example_state (cl_ws example_client)) = CLOSED"
    by (simp add: example_client_def)
  have e: "clientToSession example_state ''client-1'' = Some ''session-1''"
    by (simp add: example_state_def)
  have f: "sessions example_state ''session-1'' = Some example_session"
    by (simp add: example_state_def)
  have g: "connections example_state ''conn-1'' \<noteq> None"
    by (simp add: example_state_def)
  have h: "openaiConnectionId example_session = ''conn-1''"
    by (simp add: example_session_def)
  from pingInterval_evicts [where now = "\<lambda>k. 1700000090000" and s = example_session,
      OF registry_ok_example_state a b c d e f] h
  have "map_of (clients (pingInterval (\<lambda>k. 1700000090000) example_state)) ''client-1'' = None \<and>
   clientToSession (pingInterval (\<lambda>k. 1700000090000) example_state) ''client-1'' = None \<and>
   sessions (pingInterval (\<lambda>k. 1700000090000) example_state) ''session-1'' = None \<and>
   connections (pingInterval (\<lambda>k. 1700000090000) example_state) ''conn-1'' = None"
    by simp
  moreover have "int 1700000090000 - int (lastPong example_client) > 60000"
    by (simp add: example_client_def)
  ultimately show ?thesis
    using registry_ok_example_state a b c e f g by blast
qed

text \<open>
  A client is in \<open>clients\<close> before its session exists. \<open>createConnection\<close> is its part
  before the wait followed by the end of the handshake, and so is \<open>createSession\<close>.
\<close>

lemma createConnection_from_begin:
  "createConnection env clientId st =
     (let st3 = createConnection_begin env clientId st; ws = new_socket env
      in case outcome env of
           Opened \<Rightarrow>
             (Inr (uuid_connection env),
              logger Info ''Conexao estabelecida com OpenAI''
                (st3\<lparr>sockets := (sockets st3)(ws := (sockets st3 ws)\<lparr>readyState := OPEN\<rparr>)\<rparr>))
         | Failed m \<Rightarrow>
             (Inl (Error m),
              logger Err ''Falha ao criar conexao com OpenAI: ''
                (logger Err ''Erro na conexao OpenAI: ''
                  (st3\<lparr>sockets := (sockets st3)(ws := (sockets st3 ws)\<lparr>readyState := CLOSED\<rparr>)\<rparr>)))
         | TimedOut \<Rightarrow>
             (Inl (Error ''Timeout ao conectar com OpenAI''),
              logger Err ''Falha ao criar conexao com OpenAI: '' st3))"
  by (cases "outcome env") (simp_all add: createConnection_def createConnection_begin_def Let_def)

lemma createSession_from_begin:
  assumes "clientToSession st clientId = None" and "outcome env = TimedOut"
  shows "snd (createSession env clientId ws st) =
     logger Err ''Erro ao criar sessao: ''
       (logger Err ''Falha ao criar conexao com OpenAI: '' (createSession_begin env clientId st))"
  using assms
  by (simp add: createSession_def createSession_begin_def createConnection_def
      createConnection_begin_def Let_def)

text \<open>
  While the handshake is awaited, the client has no session, and the connection
  stored for it is reachable from no map that the teardown reads.
\<close>

lemma handleConnection_begin_pending:
  assumes "clientToSession st clientId = None"
  shows "map_of (clients (handleConnection_begin env clientId ws clientIp now1 now2 st)) clientId =
           Some \<lparr>cl_ws = ws, ip = clientIp, connected = now1, lastPong = now2\<rparr>"
    and "clientToSession (handleConnection_begin env clientId ws clientIp now1 now2 st) clientId = None"
    and "connections (handleConnection_begin env clientId ws clientIp now1 now2 st) (uuid_connection env) =
           Some \<lparr>c_ws = new_socket env, c_clientId = clientId, c_created = now_connection env\<rparr>"
  using assms
  by (simp_all add: handleConnection_begin_def createSession_begin_def createConnection_begin_def
      logger_def Let_def update_Some_unfold)

text \<open>The example state in which \<open>client-2\<close> has closed its socket during the handshake.\<close>

lemma pending_state_eq:
  "pending_state =
     \<lparr>clients = [(''client-1'', example_client), (''client-2'', pending_client)],
      sessions = [''session-1'' \<mapsto> example_session],
      clientToSession = [''client-1'' \<mapsto> ''session-1''],
      connections = [''conn-1'' \<mapsto> \<lparr>c_ws = 1, c_clientId = ''client-1'', c_created = 1700000000000\<rparr>,
                     ''conn-2'' \<mapsto> \<lparr>c_ws = 3, c_clientId = ''client-2'', c_created = 1700000050000\<rparr>],
      sockets = (\<lambda>h. idle_socket)(0 := open_socket, 1 := open_socket\<lparr>messageHandlers := [''session-1'']\<rparr>,
                  2 := open_socket\<lparr>readyState := CLOSED\<rparr>,
                  3 := \<lparr>readyState = CONNECTING, sent = [], messageHandlers = []\<rparr>),
      logs = [(Info, ''Nova conexao WebSocket''), (Info, ''Criando nova sessao''),
              (Info, ''Criando nova conexao com OpenAI para cliente '')]\<rparr>"
  by (simp add: pending_state_def socket_closed_def handleConnection_begin_def createSession_begin_def
      createConnection_begin_def logger_def Let_def example_state_def example_env_def
      pending_client_def fun_upd_twist)

text \<open>
  C7. The claim asks that every connected client whose transport is closed is, after
  the liveness check, absent from \<open>clients\<close> together with its upstream connection
  entry. In the example, \<open>client-2\<close> is in \<open>clients\<close> with a closed socket while the
  handshake of its connection \<open>conn-2\<close> is awaited. The liveness check evicts the
  client, finds no session to close, and leaves \<open>conn-2\<close> in \<open>connections\<close>, its socket
  still connecting.
\<close>

theorem pingInterval_leaves_connection:
  "map_of (clients pending_state) ''client-2'' = Some pending_client \<and>
   readyState (sockets pending_state (cl_ws pending_client)) = CLOSED \<and>
   connections pending_state ''conn-2'' =
     Some \<lparr>c_ws = 3, c_clientId = ''client-2'', c_created = 1700000050000\<rparr> \<and>
   map_of (clients (pingInterval example_clock pending_state)) ''client-2'' = None \<and>
   clientToSession (pingInterval example_clock pending_state) ''client-2'' = None \<and>
   connections (pingInterval example_clock pending_state) ''conn-2'' =
     Some \<lparr>c_ws = 3, c_clientId = ''client-2'', c_created = 1700000050000\<rparr> \<and>
   readyState (sockets (pingInterval example_clock pending_state) 3) = CONNECTING"
  by (simp add: pending_state_def socket_closed_def handleConnection_begin_def createSession_begin_def
      createConnection_begin_def logger_def Let_def example_state_def example_env_def
      pending_client_def example_client_def example_clock_def open_socket_def idle_socket_def
      pingInterval_def checkClient_def handleClientDisconnect_def closeClientSessions_def
      ws_ping_def)

section \<open>Facts about rounding\<close>

lemma powi_pos: "0 < (2::rat) powi e"
  by simp

lemma powi_add: "(2::rat) powi (a + b) = 2 powi a * 2 powi b"
  by (simp add: power_int_add)

lemma powi_mono: "a \<le> b \<Longrightarrow> (2::rat) powi a \<le> 2 powi b"
  by (simp add: power_int_increasing)

lemma powi_strict_mono: "a < b \<Longrightarrow> (2::rat) powi a < 2 powi b"
  by (simp add: power_int_strict_increasing)

lemma powi_le_cancel: "(2::rat) powi a \<le> 2 powi b \<Longrightarrow> a \<le> b"
  using powi_strict_mono [of b a] by (cases "a \<le> b") auto

lemma powi_less_cancel: "(2::rat) powi a < 2 powi b \<Longrightarrow> a < b"
  using powi_mono [of b a] by (cases "a < b") auto

lemma powi_nat: "0 \<le> e \<Longrightarrow> (2::rat) powi e = of_int (2 ^ nat e)"
  by (simp add: power_int_def)

lemma powi_half: "(2::rat) powi (e - 1) = 2 powi e / 2"
  using powi_add [of "e - 1" 1] by simp

lemma ilog2_bounds:
  assumes "0 < x"
  shows "2 powi (ilog2 x) \<le> x" and "x < 2 powi (ilog2 x + 1)"
proof -
  have "2 powi (ilog2 x) \<le> x \<and> x < 2 powi (ilog2 x + 1)"
  proof (cases "1 \<le> x")
    case True
    let ?m = "\<lfloor>x\<rfloor>"
    from True have m: "0 < ?m" by simp
    from bitlen_bounds [OF m] have b: "2 ^ nat (bitlen ?m - 1) \<le> ?m" "?m < 2 ^ nat (bitlen ?m)"
      by simp_all
    from m have bl: "1 \<le> bitlen ?m"
      by (simp add: bitlen_alt_def)
    have e: "ilog2 x = bitlen ?m - 1"
      using True by (simp add: ilog2_def)
    have "(2::rat) powi (bitlen ?m - 1) = of_int (2 ^ nat (bitlen ?m - 1))"
      using bl by (simp add: powi_nat)
    also have "\<dots> \<le> of_int ?m"
      using b(1) by (simp only: of_int_le_iff)
    also have "\<dots> \<le> x" by (rule of_int_floor_le)
    finally have lo: "2 powi (ilog2 x) \<le> x"
      by (simp add: e)
    have "?m + 1 \<le> 2 ^ nat (bitlen ?m)"
      using b(2) by simp
    then have u1: "(of_int (?m + 1) :: rat) \<le> of_int (2 ^ nat (bitlen ?m))"
      by (simp only: of_int_le_iff)
    have u2: "x < of_int (?m + 1)"
      by (simp only: of_int_add of_int_1) linarith
    have p3: "(2::rat) powi (bitlen ?m) = of_int (2 ^ nat (bitlen ?m))"
      using bl by (simp add: powi_nat)
    from u2 u1 have "x < of_int (2 ^ nat (bitlen ?m))" by (rule less_le_trans)
    then have "x < 2 powi (bitlen ?m)" by (simp only: p3)
    then have "x < 2 powi (ilog2 x + 1)"
      by (simp add: e)
    with lo show ?thesis by simp
  next
    case False
    let ?y = "1 / x"
    let ?m = "\<lceil>?y\<rceil>"
    from False assms have y: "1 < ?y" by simp
    then have m2: "2 \<le> ?m" by (simp add: le_ceiling_iff)
    then have m: "0 < ?m - 1" by simp
    let ?k = "bitlen (?m - 1)"
    from bitlen_bounds [OF m] have b: "2 ^ nat (?k - 1) \<le> ?m - 1" "?m - 1 < 2 ^ nat ?k"
      by simp_all
    from m have k: "1 \<le> ?k"
      by (simp add: bitlen_alt_def)
    have e: "ilog2 x = - ?k"
      using False by (simp add: ilog2_def)
    have "?m \<le> 2 ^ nat ?k"
      using b(2) by simp
    then have c1: "(of_int ?m :: rat) \<le> of_int (2 ^ nat ?k)"
      by (simp only: of_int_le_iff)
    have c2: "?y \<le> of_int ?m" by (rule le_of_int_ceiling)
    have p1: "(2::rat) powi ?k = of_int (2 ^ nat ?k)"
      using k by (simp add: powi_nat)
    from c2 c1 have "?y \<le> of_int (2 ^ nat ?k)" by (rule order_trans)
    then have "?y \<le> 2 powi ?k" by (simp only: p1)
    then have "1 \<le> 2 powi ?k * x"
      using assms by (simp add: field_simps)
    then have "1 / 2 powi ?k \<le> x"
      by (simp add: field_simps)
    then have lo: "2 powi (ilog2 x) \<le> x"
      by (simp add: e power_int_minus_divide)
    have d1: "(of_int (2 ^ nat (?k - 1)) :: rat) \<le> of_int (?m - 1)"
      using b(1) by (simp only: of_int_le_iff)
    have d2: "of_int (?m - 1) < ?y"
      using ceiling_correct [of ?y] by simp
    have p2: "(2::rat) powi (?k - 1) = of_int (2 ^ nat (?k - 1))"
      using k by (simp add: powi_nat)
    from d1 d2 have "of_int (2 ^ nat (?k - 1)) < ?y" by (rule le_less_trans)
    then have "2 powi (?k - 1) < ?y" by (simp only: p2)
    then have "2 powi (?k - 1) * x < 1"
      using assms by (simp add: field_simps)
    then have "x < 1 / 2 powi (?k - 1)"
      by (simp add: field_simps)
    also have "1 / (2::rat) powi (?k - 1) = 2 powi (- (?k - 1))"
      by (simp only: power_int_minus_divide)
    finally have "x < 2 powi (ilog2 x + 1)"
      by (simp add: e)
    with lo show ?thesis by simp
  qed
  then show "2 powi (ilog2 x) \<le> x" and "x < 2 powi (ilog2 x + 1)"
    by simp_all
qed

lemma round_half_even_floor: "\<lfloor>q\<rfloor> \<le> round_half_even q"
  by (simp add: round_half_even_def Let_def)

lemma round_half_even_ceiling: "round_half_even q \<le> \<lceil>q\<rceil>"
proof -
  have "\<lceil>q\<rceil> = \<lfloor>q\<rfloor> + 1" if "q \<noteq> of_int \<lfloor>q\<rfloor>"
    using that by (simp add: ceiling_altdef)
  moreover have "round_half_even q = \<lfloor>q\<rfloor>" if "q = of_int \<lfloor>q\<rfloor>"
  proof -
    from that have "q - of_int \<lfloor>q\<rfloor> = 0" by simp
    then show ?thesis by (simp add: round_half_even_def Let_def)
  qed
  moreover have "round_half_even q \<le> \<lfloor>q\<rfloor> + 1"
    by (simp add: round_half_even_def Let_def)
  ultimately show ?thesis
    by (cases "q = of_int \<lfloor>q\<rfloor>") (simp_all add: ceiling_altdef)
qed

lemma round_half_even_of_int: "round_half_even (of_int n) = n"
  by (simp add: round_half_even_def)

lemma round_half_even_error: "\<bar>of_int (round_half_even q) - q\<bar> \<le> 1 / 2"
proof -
  have f: "of_int \<lfloor>q\<rfloor> \<le> q" "q < of_int \<lfloor>q\<rfloor> + 1"
    by linarith+
  show ?thesis
    using f by (auto simp: round_half_even_def Let_def abs_le_iff)
qed

lemma round_half_even_abs:
  assumes "\<bar>q\<bar> \<le> of_int n"
  shows "\<bar>of_int (round_half_even q) :: rat\<bar> \<le> of_int n"
proof -
  from assms have "q \<le> of_int n" "of_int (- n) \<le> q" by simp_all
  then have "\<lceil>q\<rceil> \<le> n" "- n \<le> \<lfloor>q\<rfloor>"
    by (simp_all add: ceiling_le_iff le_floor_iff)
  with round_half_even_floor [of q] round_half_even_ceiling [of q]
  have "- n \<le> round_half_even q" "round_half_even q \<le> n" by simp_all
  then have "\<bar>round_half_even q\<bar> \<le> n" by simp
  then have "(of_int \<bar>round_half_even q\<bar> :: rat) \<le> of_int n"
    by (simp only: of_int_le_iff)
  then show ?thesis by simp
qed
text \<open>
  Rounding a value of magnitude at most \<open>2\<^sup>j\<close>: the result is finite, of magnitude
  at most \<open>2\<^sup>j\<close>, of the same sign, and off by at most \<open>2\<^sup>j\<^sup>-\<^sup>p\<close>.
\<close>

lemma round_to_bounded:
  assumes "0 < p" and "emin \<le> j" and "j \<le> emax" and "\<bar>y\<bar> \<le> 2 powi j"
  shows "\<exists>r. round_to p emin emax y = Fin r \<and> \<bar>r\<bar> \<le> 2 powi j \<and>
           \<bar>r - y\<bar> \<le> 2 powi (j - int p) \<and> (0 \<le> y \<longrightarrow> 0 \<le> r) \<and> (y \<le> 0 \<longrightarrow> r \<le> 0)"
proof (cases "y = 0")
  case True
  then show ?thesis by (simp add: round_to_def)
next
  case False
  define e where "e = max (ilog2 \<bar>y\<bar>) emin"
  define u where "u = (2::rat) powi (e - int p + 1)"
  define k where "k = round_half_even (y / u)"
  define r where "r = of_int k * u"
  from False have ypos: "0 < \<bar>y\<bar>" by simp
  have "(2::rat) powi (ilog2 \<bar>y\<bar>) \<le> 2 powi j"
    using ilog2_bounds(1) [OF ypos] assms(4) by (rule order_trans)
  then have "ilog2 \<bar>y\<bar> \<le> j" by (rule powi_le_cancel)
  with assms(2) have ej: "e \<le> j" by (simp add: e_def)
  have upos: "0 < u" by (simp add: u_def)
  define n :: int where "n = 2 ^ nat (j - e + int p - 1)"
  have "0 \<le> j - e + int p - 1" using ej assms(1) by simp
  then have "(2::rat) powi (j - e + int p - 1) = of_int n"
    by (simp add: n_def powi_nat)
  moreover have "(2::rat) powi j = 2 powi (j - e + int p - 1) * u"
    unfolding u_def by (simp add: powi_add [symmetric])
  ultimately have nu: "2 powi j = of_int n * u" by simp
  have "\<bar>y / u\<bar> = \<bar>y\<bar> / u" using upos by simp
  also have "\<dots> \<le> (of_int n * u) / u"
    using assms(4) upos by (simp only: nu [symmetric] divide_le_cancel) simp
  also have "\<dots> = of_int n" using upos by simp
  finally have "\<bar>y / u\<bar> \<le> of_int n" .
  then have "\<bar>of_int k :: rat\<bar> \<le> of_int n"
    unfolding k_def by (rule round_half_even_abs)
  then have "\<bar>of_int k :: rat\<bar> * u \<le> of_int n * u"
    using upos by (simp only: mult_le_cancel_right) simp
  then have rj: "\<bar>r\<bar> \<le> 2 powi j"
    using upos by (simp add: r_def abs_mult nu)
  have "r - y = (of_int k - y / u) * u"
    using upos by (simp add: r_def field_simps)
  then have "\<bar>r - y\<bar> = \<bar>of_int k - y / u\<bar> * u"
    using upos by (simp add: abs_mult)
  also have "\<dots> \<le> (1 / 2) * u"
    using round_half_even_error [of "y / u"] upos
    by (simp only: k_def mult_le_cancel_right) simp
  also have "(1 / 2) * u = 2 powi (e - int p)"
    using powi_half [of "e - int p + 1"] by (simp add: u_def)
  also have "\<dots> \<le> 2 powi (j - int p)"
    using ej by (simp add: powi_mono)
  finally have err: "\<bar>r - y\<bar> \<le> 2 powi (j - int p)" .
  have "(2::rat) powi j < 2 powi (emax + 1)"
    using assms(3) by (simp add: powi_strict_mono)
  with rj have fin: "\<not> 2 powi (emax + 1) \<le> \<bar>r\<bar>" by simp
  have sp: "0 \<le> r" if "0 \<le> y"
  proof -
    from that upos have "0 \<le> y / u" by simp
    then have "0 \<le> \<lfloor>y / u\<rfloor>" by (simp only: zero_le_floor)
    with round_half_even_floor [of "y / u"] have "0 \<le> k" unfolding k_def by linarith
    with upos show ?thesis by (simp add: r_def)
  qed
  have sn: "r \<le> 0" if "y \<le> 0"
  proof -
    from that upos have "y / u \<le> 0" by (simp add: divide_le_0_iff)
    then have "\<lceil>y / u\<rceil> \<le> 0" by (simp only: ceiling_le_zero)
    with round_half_even_ceiling [of "y / u"] have "k \<le> 0" unfolding k_def by linarith
    with upos show ?thesis by (simp add: r_def mult_le_0_iff)
  qed
  have "round_to p emin emax y = Fin r"
    using False fin by (simp add: round_to_def Let_def e_def u_def k_def r_def)
  with rj err sp sn show ?thesis by blast
qed

text \<open>A value with at most \<open>p\<close> significant bits within the format's range is not changed.\<close>

lemma round_to_exact:
  assumes "y = of_int m * 2 powi q" and "\<bar>m\<bar> < 2 ^ p"
    and "emin - int p + 1 \<le> q" and "q + int p \<le> emax + 1"
  shows "round_to p emin emax y = Fin y"
proof (cases "y = 0")
  case True
  then show ?thesis by (simp add: round_to_def)
next
  case False
  define e where "e = max (ilog2 \<bar>y\<bar>) emin"
  define u where "u = (2::rat) powi (e - int p + 1)"
  from False have ypos: "0 < \<bar>y\<bar>" by simp
  have "(of_int \<bar>m\<bar> :: rat) < of_int (2 ^ p)"
    using assms(2) by (simp only: of_int_less_iff)
  then have "(of_int \<bar>m\<bar> :: rat) < 2 powi (int p)" by simp
  moreover have "0 < (2::rat) powi q" by simp
  ultimately have "of_int \<bar>m\<bar> * 2 powi q < 2 powi (int p) * (2::rat) powi q"
    by (rule mult_strict_right_mono)
  then have ylt: "\<bar>y\<bar> < 2 powi (int p + q)"
    by (simp add: assms(1) abs_mult powi_add)
  with ilog2_bounds(1) [OF ypos] have "(2::rat) powi (ilog2 \<bar>y\<bar>) < 2 powi (int p + q)"
    by (rule le_less_trans)
  then have "ilog2 \<bar>y\<bar> < int p + q" by (rule powi_less_cancel)
  with assms(3) have d: "0 \<le> q - (e - int p + 1)" by (simp add: e_def)
  have upos: "0 < u" by (simp add: u_def)
  have "(2::rat) powi q = 2 powi (q - (e - int p + 1)) * u"
    unfolding u_def by (simp add: powi_add [symmetric])
  also have "(2::rat) powi (q - (e - int p + 1)) = of_int (2 ^ nat (q - (e - int p + 1)))"
    using d by (rule powi_nat)
  finally have "y / u = of_int (m * 2 ^ nat (q - (e - int p + 1)))"
    using upos by (simp add: assms(1))
  then have "round_half_even (y / u) = m * 2 ^ nat (q - (e - int p + 1))"
    by (simp only: round_half_even_of_int)
  then have "of_int (round_half_even (y / u)) * u = (y / u) * u"
    using \<open>y / u = of_int (m * 2 ^ nat (q - (e - int p + 1)))\<close> by simp
  then have r: "of_int (round_half_even (y / u)) * u = y"
    using upos by simp
  have "(2::rat) powi (int p + q) \<le> 2 powi (emax + 1)"
    using assms(4) by (simp add: powi_mono add.commute)
  with ylt have "\<not> 2 powi (emax + 1) \<le> \<bar>y\<bar>" by simp
  with False r show ?thesis
    by (simp add: round_to_def Let_def e_def [symmetric] u_def [symmetric])
qed

lemma rd64_of_int:
  assumes "\<bar>m\<bar> < 2 ^ 53"
  shows "rd64 (of_int m) = Fin (of_int m)"
  unfolding rd64_def using assms
  by (intro round_to_exact [where m = m and q = 0]) simp_all

lemma rd64_half:
  assumes "\<bar>m\<bar> < 2 ^ 53"
  shows "rd64 (of_int m / 2) = Fin (of_int m / 2)"
  unfolding rd64_def using assms
  by (intro round_to_exact [where m = m and q = "- 1"]) simp_all

lemma rd64_bounded:
  assumes "- 1022 \<le> j" and "j \<le> 1023" and "\<bar>y\<bar> \<le> 2 powi j"
  shows "\<exists>r. rd64 y = Fin r \<and> \<bar>r\<bar> \<le> 2 powi j \<and> \<bar>r - y\<bar> \<le> 2 powi (j - 53) \<and>
           (0 \<le> y \<longrightarrow> 0 \<le> r) \<and> (y \<le> 0 \<longrightarrow> r \<le> 0)"
  unfolding rd64_def using round_to_bounded [of 53 "- 1022" j 1023 y] assms by simp

lemma rd32_bounded:
  assumes "- 126 \<le> j" and "j \<le> 127" and "\<bar>y\<bar> \<le> 2 powi j"
  shows "\<exists>r. rd32 y = Fin r \<and> \<bar>r\<bar> \<le> 2 powi j \<and> \<bar>r - y\<bar> \<le> 2 powi (j - 24) \<and>
           (0 \<le> y \<longrightarrow> 0 \<le> r) \<and> (y \<le> 0 \<longrightarrow> r \<le> 0)"
  unfolding rd32_def using round_to_bounded [of 24 "- 126" j 127 y] assms by simp

section \<open>PCM16 conversion\<close>

lemma pcm16ToFloat32_samples:
  "pcm16ToFloat32 b =
     (case new_Int16Array (arrayBuffer b) (byteOffset b) (fdiv (Fin (of_nat (byteLength b))) (Fin 2)) of
        Inl e \<Rightarrow> Inl e
      | Inr ws \<Rightarrow> Inr (map sample_to_float ws))"
proof -
  have "sample_to_float =
      (\<lambda>w. fround (fdiv (Fin (of_int (sint w))) (Fin (if sint w < 0 then 32768 else 32767))))"
    by (rule ext) (simp add: sample_to_float_def)
  then show ?thesis by (simp only: pcm16ToFloat32_def)
qed

lemma float32ToPcm16_samples:
  "float32ToPcm16 fs =
     \<lparr>arrayBuffer = concat (map bytes_of_int16 (map float_to_sample fs)), byteOffset = 0,
      byteLength = 2 * length fs\<rparr>"
proof -
  have "float_to_sample =
      (\<lambda>f. let s = js_max (Fin (- 1)) (js_min (Fin 1) f)
           in ToInt16 (if num_less s (Fin 0) then fmul s (Fin 32768) else fmul s (Fin 32767)))"
    by (rule ext) (simp add: float_to_sample_def)
  then show ?thesis by (simp add: float32ToPcm16_def)
qed

text \<open>Half the byte length is exact, and \<open>ToIndex\<close> truncates it.\<close>

lemma half_length:
  assumes "n < 2 ^ 53"
  shows "rd64 (of_nat n / 2) = Fin (of_nat n / 2)"
    and "trunc (of_nat n / 2) = int (n div 2)"
proof -
  have "\<bar>int n\<bar> < 2 ^ 53" using assms by simp
  from rd64_half [OF this] show "rd64 (of_nat n / 2) = Fin (of_nat n / 2)"
    by simp
  have "\<lfloor>(of_nat n :: rat) / of_nat 2\<rfloor> = of_nat (n div 2)"
    by (rule floor_divide_of_nat_eq)
  then show "trunc (of_nat n / 2) = int (n div 2)"
    by (simp add: trunc_def)
qed

lemma new_Int16Array_aligned:
  assumes "valid_buffer b" and "even (byteOffset b)"
  shows "new_Int16Array (arrayBuffer b) (byteOffset b) (fdiv (Fin (of_nat (byteLength b))) (Fin 2)) =
           Inr (map (int16_at (arrayBuffer b) (byteOffset b)) [0..<byteLength b div 2])"
proof -
  from assms(1) have n: "byteLength b < 2 ^ 53"
    and fit: "byteOffset b + byteLength b \<le> length (arrayBuffer b)"
    by (simp_all add: valid_buffer_def)
  have "byteOffset b + byteLength b div 2 * 2 \<le> length (arrayBuffer b)"
    using fit by simp
  moreover have "int (byteLength b div 2) \<le> 9007199254740991"
    using n by simp
  ultimately show ?thesis
    using assms(2) by (simp add: new_Int16Array_def half_length [OF n] even_iff_mod_2_eq_zero)
qed

lemma new_Int16Array_unaligned:
  assumes "odd off"
  shows "new_Int16Array bs off len = Inl (RangeError ''start offset of Int16Array should be a multiple of 2'')"
  using assms by (simp add: new_Int16Array_def odd_iff_mod_2_eq_one)

lemma sint16_bounds: "- 32768 \<le> sint (w :: 16 word)" "sint (w :: 16 word) \<le> 32767"
  using sint_ge [of w] sint_lt [of w] by simp_all

text \<open>Every float sample made of a 16-bit sample is a finite number between -1 and 1.\<close>

lemma sample_to_float_bounded:
  fixes w :: "16 word"
  defines "y \<equiv> (of_int (sint w) :: rat) / (if sint w < 0 then 32768 else 32767)"
  shows "\<exists>r1 r2. rd64 y = Fin r1 \<and> sample_to_float w = Fin r2 \<and> \<bar>y\<bar> \<le> 1 \<and> \<bar>r1\<bar> \<le> 1 \<and> \<bar>r2\<bar> \<le> 1 \<and>
           \<bar>r1 - y\<bar> \<le> 2 powi (- 53) \<and> \<bar>r2 - r1\<bar> \<le> 2 powi (- 24)"
proof -
  have y1: "\<bar>y\<bar> \<le> 1"
  proof (cases "sint w < 0")
    case True
    with sint16_bounds(1) [of w] have "- 32768 \<le> (of_int (sint w) :: rat)" "(of_int (sint w) :: rat) \<le> 0"
      by (simp_all del: of_int_sint)
    with True show ?thesis by (simp add: y_def abs_le_iff del: of_int_sint)
  next
    case False
    with sint16_bounds(2) [of w] have "(of_int (sint w) :: rat) \<le> 32767" "0 \<le> (of_int (sint w) :: rat)"
      by (simp_all del: of_int_sint)
    with False show ?thesis by (simp add: y_def abs_le_iff del: of_int_sint)
  qed
  from rd64_bounded [of 0 y] y1 obtain r1 where
    r1: "rd64 y = Fin r1" "\<bar>r1\<bar> \<le> 1" "\<bar>r1 - y\<bar> \<le> 2 powi (- 53)"
    by auto
  from rd32_bounded [of 0 r1] r1(2) obtain r2 where
    r2: "rd32 r1 = Fin r2" "\<bar>r2\<bar> \<le> 1" "\<bar>r2 - r1\<bar> \<le> 2 powi (- 24)"
    by auto
  have "sample_to_float w = Fin r2"
    using r1(1) r2(1) by (simp add: sample_to_float_def y_def del: of_int_sint)
  with r1 r2 y1 show ?thesis by blast
qed

lemma sample_to_float_unit_range: "unit_range (sample_to_float w)"
  using sample_to_float_bounded [of w] by (auto simp: abs_le_iff)

text \<open>
  C9, as amended. For a buffer that starts at an even offset of its \<open>ArrayBuffer\<close>,
  whatever the parity of its byte length \<open>n\<close>, \<open>pcm16ToFloat32\<close> returns exactly
  \<open>n div 2\<close> samples, each a finite number in the closed interval from -1 to 1; for
  an odd \<open>n\<close> the last byte is ignored, because the length \<open>n / 2\<close> of the view is
  truncated. For a buffer that starts at an odd offset the construction of the view
  throws a RangeError.
\<close>

theorem pcm16ToFloat32_result:
  assumes "valid_buffer b"
  shows "(even (byteOffset b) \<longrightarrow>
            (\<exists>fs. pcm16ToFloat32 b = Inr fs \<and> length fs = byteLength b div 2 \<and>
                  (\<forall>i<length fs. unit_range (fs ! i)))) \<and>
         (odd (byteOffset b) \<longrightarrow>
            pcm16ToFloat32 b = Inl (RangeError ''start offset of Int16Array should be a multiple of 2''))"
proof (intro conjI impI)
  assume "even (byteOffset b)"
  with assms have "pcm16ToFloat32 b =
      Inr (map sample_to_float (map (int16_at (arrayBuffer b) (byteOffset b)) [0..<byteLength b div 2]))"
    by (simp only: pcm16ToFloat32_samples new_Int16Array_aligned sum.case)
  then show "\<exists>fs. pcm16ToFloat32 b = Inr fs \<and> length fs = byteLength b div 2 \<and>
      (\<forall>i<length fs. unit_range (fs ! i))"
    by (simp add: sample_to_float_unit_range)
next
  assume "odd (byteOffset b)"
  then have "new_Int16Array (arrayBuffer b) (byteOffset b) (fdiv (Fin (of_nat (byteLength b))) (Fin 2)) =
      Inl (RangeError ''start offset of Int16Array should be a multiple of 2'')"
    by (rule new_Int16Array_unaligned)
  then show "pcm16ToFloat32 b = Inl (RangeError ''start offset of Int16Array should be a multiple of 2'')"
    by (simp only: pcm16ToFloat32_samples sum.case)
qed

theorem pcm16ToFloat32_result_witness:
  "valid_buffer \<lparr>arrayBuffer = [1, 0, 255, 127, 7], byteOffset = 0, byteLength = 5\<rparr> \<and>
   even (byteOffset \<lparr>arrayBuffer = [1, 0, 255, 127, 7], byteOffset = 0, byteLength = 5\<rparr>) \<and>
   (\<exists>fs. pcm16ToFloat32 \<lparr>arrayBuffer = [1, 0, 255, 127, 7], byteOffset = 0, byteLength = 5\<rparr> = Inr fs \<and>
         length fs = 2 \<and> unit_range (fs ! 0) \<and> unit_range (fs ! 1)) \<and>
   valid_buffer \<lparr>arrayBuffer = [9, 1, 0, 255, 127], byteOffset = 1, byteLength = 4\<rparr> \<and>
   odd (byteOffset \<lparr>arrayBuffer = [9, 1, 0, 255, 127], byteOffset = 1, byteLength = 4\<rparr>) \<and>
   pcm16ToFloat32 \<lparr>arrayBuffer = [9, 1, 0, 255, 127], byteOffset = 1, byteLength = 4\<rparr> =
     Inl (RangeError ''start offset of Int16Array should be a multiple of 2'')"
proof -
  let ?b = "\<lparr>arrayBuffer = [1, 0, 255, 127, 7], byteOffset = 0, byteLength = 5\<rparr> :: buffer"
  let ?c = "\<lparr>arrayBuffer = [9, 1, 0, 255, 127], byteOffset = 1, byteLength = 4\<rparr> :: buffer"
  have vb: "valid_buffer ?b" and vc: "valid_buffer ?c"
    by (simp_all add: valid_buffer_def)
  have eb: "even (byteOffset ?b)" and oc: "odd (byteOffset ?c)"
    by simp_all
  from pcm16ToFloat32_result [OF vb] eb
  obtain fs where fs: "pcm16ToFloat32 ?b = Inr fs" "length fs = byteLength ?b div 2"
      "\<forall>i<length fs. unit_range (fs ! i)"
    by blast
  from fs(2) have l: "length fs = 2" by simp
  with fs(3) have "unit_range (fs ! 0)" "unit_range (fs ! 1)" by simp_all
  with fs(1) l have one: "\<exists>fs. pcm16ToFloat32 ?b = Inr fs \<and> length fs = 2 \<and>
      unit_range (fs ! 0) \<and> unit_range (fs ! 1)"
    by blast
  from pcm16ToFloat32_result [OF vc] oc
  have two: "pcm16ToFloat32 ?c = Inl (RangeError ''start offset of Int16Array should be a multiple of 2'')"
    by blast
  from vb vc eb oc one two show ?thesis by blast
qed

text \<open>
  C9 as stated fails: for the buffer of the three bytes 1, 0, 7 (an odd length) the
  function does not throw; it returns the one sample made of the first two bytes.
\<close>

theorem pcm16ToFloat32_odd_length_returns:
  "pcm16ToFloat32 \<lparr>arrayBuffer = [1, 0, 7], byteOffset = 0, byteLength = 3\<rparr> =
     Inr [fround (fdiv (Fin 1) (Fin 32767))]"
proof -
  have "rd64 (of_nat 3 / 2) = Fin (of_nat 3 / 2)" "trunc (of_nat 3 / 2) = int (3 div 2)"
    by (rule half_length, simp)+
  then have "new_Int16Array [1, 0, 7] 0 (fdiv (Fin 3) (Fin 2)) = Inr [int16_at [1, 0, 7] 0 0]"
    by (simp add: new_Int16Array_def)
  moreover have "int16_at [1, 0, 7] 0 0 = 1"
    by (simp add: int16_at_def word_cat_eq)
  ultimately show ?thesis
    by (simp add: pcm16ToFloat32_def)
qed

section \<open>The PCM16 round trip\<close>

lemma sint_word_of_int_16:
  assumes "- 32768 \<le> t" and "t \<le> 32767"
  shows "sint (word_of_int t :: 16 word) = t"
proof -
  have "sint (word_of_int t :: 16 word) = signed_take_bit 15 t"
    by (simp add: sint_sbintrunc')
  also have "signed_take_bit 15 t = t"
    using assms by (intro signed_take_bit_int_eq_self) simp_all
  finally show ?thesis .
qed

lemma clamp_unit:
  assumes "\<bar>r\<bar> \<le> 1"
  shows "js_max (Fin (- 1)) (js_min (Fin 1) (Fin r)) = Fin r"
  using assms by (auto simp: js_max_def js_min_def abs_le_iff)

text \<open>
  The signs and the error of the float sample: with \<open>x\<close> the 16-bit sample and \<open>K\<close>
  its divisor, the float sample \<open>r\<close> has the sign of \<open>x\<close>, magnitude at most 1, and
  differs from \<open>x / K\<close> by at most \<open>2\<^sup>-\<^sup>5\<^sup>3 + 2\<^sup>-\<^sup>2\<^sup>4\<close>.
\<close>

lemma sample_to_float_error:
  fixes w :: "16 word"
  defines "y \<equiv> (of_int (sint w) :: rat) / (if sint w < 0 then 32768 else 32767)"
  shows "\<exists>r. sample_to_float w = Fin r \<and> \<bar>r\<bar> \<le> 1 \<and>
           \<bar>r - y\<bar> \<le> 1 / 9007199254740992 + 1 / 16777216 \<and>
           (0 \<le> sint w \<longrightarrow> 0 \<le> r) \<and> (sint w < 0 \<longrightarrow> r < 0)"
proof -
  have y1: "\<bar>y\<bar> \<le> 1"
    using sample_to_float_bounded [of w] unfolding y_def by blast
  from rd64_bounded [of 0 y] y1 obtain r1 where
    r1: "rd64 y = Fin r1" "\<bar>r1\<bar> \<le> 1" "\<bar>r1 - y\<bar> \<le> 2 powi (- 53)" "0 \<le> y \<longrightarrow> 0 \<le> r1" "y \<le> 0 \<longrightarrow> r1 \<le> 0"
    by auto
  from rd32_bounded [of 0 r1] r1(2) obtain r2 where
    r2: "rd32 r1 = Fin r2" "\<bar>r2\<bar> \<le> 1" "\<bar>r2 - r1\<bar> \<le> 2 powi (- 24)" "0 \<le> r1 \<longrightarrow> 0 \<le> r2"
    by auto
  have s: "sample_to_float w = Fin r2"
    using r1(1) r2(1) by (simp add: sample_to_float_def y_def del: of_int_sint)
  have p53: "(2::rat) powi (- 53) = 1 / 9007199254740992" and p24: "(2::rat) powi (- 24) = 1 / 16777216"
    by (simp_all add: power_int_minus_divide)
  have err: "\<bar>r2 - y\<bar> \<le> 1 / 9007199254740992 + 1 / 16777216"
    using r1(3) r2(3) unfolding p53 p24 by linarith
  have pos: "0 \<le> r2" if "0 \<le> sint w"
  proof -
    from that have "0 \<le> (of_int (sint w) :: rat)" by (simp del: of_int_sint)
    with that have "0 \<le> y" by (simp add: y_def del: of_int_sint)
    with r1(4) r2(4) show ?thesis by simp
  qed
  have neg: "r2 < 0" if "sint w < 0"
  proof -
    from that have "sint w \<le> - 1" by simp
    then have "(of_int (sint w) :: rat) \<le> of_int (- 1)" by (simp only: of_int_le_iff)
    then have "(of_int (sint w) :: rat) \<le> - 1" by (simp del: of_int_sint)
    with that have "y \<le> - 1 / 32768" by (simp add: y_def field_simps del: of_int_sint)
    with err show ?thesis by linarith
  qed
  from s r2(2) err pos neg show ?thesis by blast
qed

text \<open>One sample through both conversions: the result is the sample, or next to it.\<close>

lemma roundtrip_sample:
  fixes w :: "16 word"
  shows "\<bar>sint (float_to_sample (sample_to_float w)) - sint w\<bar> \<le> 1"
proof -
  define x where "x = sint w"
  define K :: rat where "K = (if x < 0 then 32768 else 32767)"
  from sample_to_float_error [of w] obtain r where
    r: "sample_to_float w = Fin r" "\<bar>r\<bar> \<le> 1"
      "\<bar>r - of_int x / K\<bar> \<le> 1 / 9007199254740992 + 1 / 16777216"
      "0 \<le> x \<longrightarrow> 0 \<le> r" "x < 0 \<longrightarrow> r < 0"
    unfolding x_def K_def by blast
  have xb: "- 32768 \<le> x" "x \<le> 32767"
    using sint16_bounds [of w] by (simp_all add: x_def)
  have K: "0 < K" "K \<le> 32768" by (simp_all add: K_def)
  have br: "(if num_less (Fin r) (Fin 0) then fmul (Fin r) (Fin 32768) else fmul (Fin r) (Fin 32767)) =
      rd64 (r * K)"
    using r(4,5) by (cases "x < 0") (simp_all add: K_def)
  have f: "float_to_sample (sample_to_float w) = ToInt16 (rd64 (r * K))"
    using br by (simp add: float_to_sample_def r(1) clamp_unit [OF r(2)] Let_def)
  have "\<bar>r * K\<bar> = \<bar>r\<bar> * K" using K(1) by (simp add: abs_mult)
  also have "\<dots> \<le> 1 * 32768"
    using r(2) K by (intro mult_mono) simp_all
  finally have rk: "\<bar>r * K\<bar> \<le> 2 powi 15" by simp
  from rd64_bounded [of 15 "r * K"] rk obtain m where
    m: "rd64 (r * K) = Fin m" "\<bar>m - r * K\<bar> \<le> 2 powi (- 38)" "0 \<le> r * K \<longrightarrow> 0 \<le> m"
      "r * K \<le> 0 \<longrightarrow> m \<le> 0"
    by auto
  have p38: "(2::rat) powi (- 38) = 1 / 274877906944"
    by (simp add: power_int_minus_divide)
  have "r * K - of_int x = (r - of_int x / K) * K"
    using K(1) by (simp add: field_simps)
  then have "\<bar>r * K - of_int x\<bar> = \<bar>r - of_int x / K\<bar> * K"
    using K(1) by (simp add: abs_mult)
  also have "\<dots> \<le> (1 / 9007199254740992 + 1 / 16777216) * 32768"
    using r(3) K by (intro mult_mono) simp_all
  also have "\<dots> \<le> 1 / 256" by simp
  finally have e1: "\<bar>r * K - of_int x\<bar> \<le> 1 / 256" .
  have e2: "\<bar>m - r * K\<bar> \<le> 1 / 256"
    using m(2) unfolding p38 by simp
  have close: "\<bar>m - of_int x\<bar> < 1"
    using e1 e2 by linarith
  have t: "\<bar>trunc m - x\<bar> \<le> 1 \<and> - 32768 \<le> trunc m \<and> trunc m \<le> 32767"
  proof (cases "x < 0")
    case False
    with r(4) K(1) have "0 \<le> r * K" by simp
    with m(3) have m0: "0 \<le> m" by simp
    then have tm: "trunc m = \<lfloor>m\<rfloor>" by (simp add: trunc_def)
    from close have "m < of_int (x + 1)" "of_int (x - 1) < m"
      by (simp_all add: abs_less_iff)
    then have "\<lfloor>m\<rfloor> < x + 1" "x - 1 \<le> \<lfloor>m\<rfloor>"
      by (simp_all only: floor_less_iff le_floor_iff less_imp_le)
    moreover from m0 have "0 \<le> \<lfloor>m\<rfloor>" by (simp only: zero_le_floor)
    ultimately show ?thesis using xb unfolding tm by linarith
  next
    case True
    with r(5) K(1) have "r * K < 0" by (simp add: mult_less_0_iff)
    with m(4) have m0: "m \<le> 0" by simp
    from True have "x \<le> - 1" by simp
    then have "(of_int x :: rat) \<le> of_int (- 1)" by (simp only: of_int_le_iff)
    with close have "m < 0" by (simp add: abs_less_iff)
    then have tm: "trunc m = \<lceil>m\<rceil>" by (simp add: trunc_def)
    from close have "m \<le> of_int (x + 1)" "of_int (x - 1) < m"
      by (simp_all add: abs_less_iff)
    then have "\<lceil>m\<rceil> \<le> x + 1" "x - 1 < \<lceil>m\<rceil>"
      by (simp_all only: ceiling_le_iff less_ceiling_iff)
    moreover from m0 have "\<lceil>m\<rceil> \<le> 0" by (simp only: ceiling_le_zero)
    ultimately show ?thesis using xb unfolding tm by linarith
  qed
  have "sint (float_to_sample (sample_to_float w)) = trunc m"
    using t by (simp add: f m(1) sint_word_of_int_16)
  with t show ?thesis by (simp add: x_def)
qed

text \<open>Reading the bytes that \<open>float32ToPcm16\<close> writes gives back the 16-bit samples.\<close>

lemma word_cat_bytes: "word_cat (ucast (drop_bit 8 w) :: 8 word) (ucast w :: 8 word) = (w :: 16 word)"
  by (rule bit_word_eqI) (auto simp: bit_simps)

lemma concat_bytes_nth:
  assumes "i < length ws"
  shows "concat (map bytes_of_int16 ws) ! (2 * i) = ucast (ws ! i) \<and>
         concat (map bytes_of_int16 ws) ! (2 * i + 1) = ucast (drop_bit 8 (ws ! i))"
  using assms
proof (induction ws arbitrary: i)
  case Nil
  then show ?case by simp
next
  case (Cons w ws)
  show ?case
  proof (cases i)
    case 0
    then show ?thesis by (simp add: bytes_of_int16_def)
  next
    case (Suc j)
    with Cons.prems have "j < length ws" by simp
    from Cons.IH [OF this] Suc show ?thesis
      by (simp add: bytes_of_int16_def)
  qed
qed

lemma concat_bytes_length: "length (concat (map bytes_of_int16 ws)) = 2 * length ws"
  by (induction ws) (simp_all add: bytes_of_int16_def)

lemma int16_at_concat:
  assumes "i < length ws"
  shows "int16_at (concat (map bytes_of_int16 ws)) 0 i = ws ! i"
  using concat_bytes_nth [OF assms] by (simp add: int16_at_def word_cat_bytes)

text \<open>
  C3, as amended. For a buffer of an even number of bytes that starts at an even
  offset of its \<open>ArrayBuffer\<close>, \<open>pcm16ToFloat32\<close> returns, and \<open>float32ToPcm16\<close> of
  the result is a buffer of the same length in which every 16-bit little-endian
  sample differs from the original sample by at most 1. The conversions are the
  ones of the source: a division by 32768 for a negative and by 32767 for a
  non-negative sample, done in double precision and stored in single precision, and
  back a clamp to the interval from -1 to 1, the product with the same constant in
  double precision and the truncation of \<open>Int16Array\<close>.
\<close>

theorem pcm16_roundtrip:
  assumes "valid_buffer b" and "even (byteOffset b)" and "even (byteLength b)"
  shows "\<exists>fs. pcm16ToFloat32 b = Inr fs \<and>
           byteLength (float32ToPcm16 fs) = byteLength b \<and>
           byteOffset (float32ToPcm16 fs) = 0 \<and>
           length (arrayBuffer (float32ToPcm16 fs)) = byteLength b \<and>
           (\<forall>i<byteLength b div 2.
              \<bar>sint (int16_at (arrayBuffer (float32ToPcm16 fs)) (byteOffset (float32ToPcm16 fs)) i) -
               sint (int16_at (arrayBuffer b) (byteOffset b) i)\<bar> \<le> 1)"
proof -
  define ws where "ws = map (int16_at (arrayBuffer b) (byteOffset b)) [0..<byteLength b div 2]"
  define fs where "fs = map sample_to_float ws"
  have len: "length ws = byteLength b div 2" by (simp add: ws_def)
  have p: "pcm16ToFloat32 b = Inr fs"
    using assms(1,2) by (simp only: pcm16ToFloat32_samples new_Int16Array_aligned sum.case fs_def ws_def)
  have out: "float32ToPcm16 fs =
      \<lparr>arrayBuffer = concat (map bytes_of_int16 (map float_to_sample fs)), byteOffset = 0,
       byteLength = 2 * length fs\<rparr>"
    by (rule float32ToPcm16_samples)
  have l2: "2 * length fs = byteLength b"
    using assms(3) by (simp add: fs_def len)
  have "\<bar>sint (int16_at (arrayBuffer (float32ToPcm16 fs)) (byteOffset (float32ToPcm16 fs)) i) -
         sint (int16_at (arrayBuffer b) (byteOffset b) i)\<bar> \<le> 1" if "i < byteLength b div 2" for i
  proof -
    from that have i: "i < length (map float_to_sample fs)" by (simp add: fs_def len)
    have "int16_at (arrayBuffer (float32ToPcm16 fs)) (byteOffset (float32ToPcm16 fs)) i =
        map float_to_sample fs ! i"
      by (simp only: out buffer.select_convs int16_at_concat [OF i])
    also have "\<dots> = float_to_sample (sample_to_float (ws ! i))"
      using that by (simp add: fs_def len)
    also have "ws ! i = int16_at (arrayBuffer b) (byteOffset b) i"
      using that by (simp add: ws_def)
    finally show ?thesis
      by (simp only: roundtrip_sample)
  qed
  moreover have "length (arrayBuffer (float32ToPcm16 fs)) = byteLength b"
    using l2 by (simp only: out buffer.select_convs concat_bytes_length length_map)
  moreover have "byteLength (float32ToPcm16 fs) = byteLength b" "byteOffset (float32ToPcm16 fs) = 0"
    by (simp_all add: out l2)
  ultimately show ?thesis using p by blast
qed

theorem pcm16_roundtrip_witness:
  "valid_buffer \<lparr>arrayBuffer = [9, 9, 1, 0, 255, 127, 0, 128], byteOffset = 2, byteLength = 6\<rparr> \<and>
   even (byteOffset \<lparr>arrayBuffer = [9, 9, 1, 0, 255, 127, 0, 128], byteOffset = 2, byteLength = 6\<rparr>) \<and>
   even (byteLength \<lparr>arrayBuffer = [9, 9, 1, 0, 255, 127, 0, 128], byteOffset = 2, byteLength = 6\<rparr>) \<and>
   (\<exists>fs. pcm16ToFloat32 \<lparr>arrayBuffer = [9, 9, 1, 0, 255, 127, 0, 128], byteOffset = 2, byteLength = 6\<rparr> = Inr fs \<and>
      byteLength (float32ToPcm16 fs) = 6 \<and>
      \<bar>sint (int16_at (arrayBuffer (float32ToPcm16 fs)) (byteOffset (float32ToPcm16 fs)) 0) - 1\<bar> \<le> 1 \<and>
      \<bar>sint (int16_at (arrayBuffer (float32ToPcm16 fs)) (byteOffset (float32ToPcm16 fs)) 1) - 32767\<bar> \<le> 1 \<and>
      \<bar>sint (int16_at (arrayBuffer (float32ToPcm16 fs)) (byteOffset (float32ToPcm16 fs)) 2) - (- 32768)\<bar> \<le> 1)"
proof -
  let ?b = "\<lparr>arrayBuffer = [9, 9, 1, 0, 255, 127, 0, 128], byteOffset = 2, byteLength = 6\<rparr> :: buffer"
  have v: "valid_buffer ?b" by (simp add: valid_buffer_def)
  have e: "even (byteOffset ?b)" "even (byteLength ?b)" by simp_all
  have s0: "sint (int16_at (arrayBuffer ?b) (byteOffset ?b) 0) = 1"
    and s1: "sint (int16_at (arrayBuffer ?b) (byteOffset ?b) 1) = 32767"
    and s2: "sint (int16_at (arrayBuffer ?b) (byteOffset ?b) 2) = - 32768"
    by (simp_all add: int16_at_def word_cat_eq)
  from pcm16_roundtrip [OF v e] obtain fs where
    fs: "pcm16ToFloat32 ?b = Inr fs" "byteLength (float32ToPcm16 fs) = byteLength ?b"
      "\<forall>i<byteLength ?b div 2.
        \<bar>sint (int16_at (arrayBuffer (float32ToPcm16 fs)) (byteOffset (float32ToPcm16 fs)) i) -
         sint (int16_at (arrayBuffer ?b) (byteOffset ?b) i)\<bar> \<le> 1"
    by blast
  from fs(3) [rule_format, of 0] fs(3) [rule_format, of 1] fs(3) [rule_format, of 2]
  have "\<bar>sint (int16_at (arrayBuffer (float32ToPcm16 fs)) (byteOffset (float32ToPcm16 fs)) 0) - 1\<bar> \<le> 1"
    "\<bar>sint (int16_at (arrayBuffer (float32ToPcm16 fs)) (byteOffset (float32ToPcm16 fs)) 1) - 32767\<bar> \<le> 1"
    "\<bar>sint (int16_at (arrayBuffer (float32ToPcm16 fs)) (byteOffset (float32ToPcm16 fs)) 2) - (- 32768)\<bar> \<le> 1"
    unfolding s0 s1 s2 by simp_all
  with fs(1,2) have "\<exists>fs. pcm16ToFloat32 ?b = Inr fs \<and>
      byteLength (float32ToPcm16 fs) = 6 \<and>
      \<bar>sint (int16_at (arrayBuffer (float32ToPcm16 fs)) (byteOffset (float32ToPcm16 fs)) 0) - 1\<bar> \<le> 1 \<and>
      \<bar>sint (int16_at (arrayBuffer (float32ToPcm16 fs)) (byteOffset (float32ToPcm16 fs)) 1) - 32767\<bar> \<le> 1 \<and>
      \<bar>sint (int16_at (arrayBuffer (float32ToPcm16 fs)) (byteOffset (float32ToPcm16 fs)) 2) - (- 32768)\<bar> \<le> 1"
    by auto
  with v e show ?thesis by blast
qed

text \<open>
  C3 as stated fails: a buffer of two bytes, the sample 1, that starts at offset 1 of
  its \<open>ArrayBuffer\<close> is not converted; \<open>pcm16ToFloat32\<close> throws.
\<close>

theorem pcm16_roundtrip_unaligned:
  "pcm16ToFloat32 \<lparr>arrayBuffer = [9, 1, 0], byteOffset = 1, byteLength = 2\<rparr> =
     Inl (RangeError ''start offset of Int16Array should be a multiple of 2'')"
  by (simp add: pcm16ToFloat32_def new_Int16Array_def)

section \<open>Resampling\<close>

text \<open>
  Rounding a value that is not below the smallest normal magnitude: unless the result
  is an infinity, its relative error is at most \<open>2\<^sup>-\<^sup>p\<close>.
\<close>

lemma round_to_relative:
  assumes "0 < p" and "2 powi emin \<le> \<bar>y\<bar>"
  shows "round_to p emin emax y = PInf \<or> round_to p emin emax y = NInf \<or>
         (\<exists>r. round_to p emin emax y = Fin r \<and> \<bar>r - y\<bar> \<le> \<bar>y\<bar> * 2 powi (- int p))"
proof -
  have ypos: "0 < \<bar>y\<bar>"
    using assms(2) powi_pos [of emin] by linarith
  then have y0: "y \<noteq> 0" by simp
  define e where "e = ilog2 \<bar>y\<bar>"
  define u where "u = (2::rat) powi (e - int p + 1)"
  define r where "r = of_int (round_half_even (y / u)) * u"
  have "(2::rat) powi emin < 2 powi (e + 1)"
    using assms(2) ilog2_bounds(2) [OF ypos] unfolding e_def by (rule le_less_trans)
  then have "emin < e + 1" by (rule powi_less_cancel)
  then have m: "max e emin = e" by simp
  have upos: "0 < u" by (simp add: u_def)
  have "r - y = (of_int (round_half_even (y / u)) - y / u) * u"
    using upos by (simp add: r_def field_simps)
  then have "\<bar>r - y\<bar> = \<bar>of_int (round_half_even (y / u)) - y / u\<bar> * u"
    using upos by (simp add: abs_mult)
  also have "\<dots> \<le> (1 / 2) * u"
    using round_half_even_error [of "y / u"] upos
    by (simp only: mult_le_cancel_right) simp
  also have "(1 / 2) * u = 2 powi (e - int p)"
    using powi_half [of "e - int p + 1"] by (simp add: u_def)
  also have "\<dots> = 2 powi e * 2 powi (- int p)"
    using powi_add [of e "- int p"] by simp
  also have "\<dots> \<le> \<bar>y\<bar> * 2 powi (- int p)"
    using ilog2_bounds(1) [OF ypos] unfolding e_def
    by (intro mult_right_mono) simp_all
  finally have err: "\<bar>r - y\<bar> \<le> \<bar>y\<bar> * 2 powi (- int p)" .
  have "round_to p emin emax y =
      (if 2 powi (emax + 1) \<le> \<bar>r\<bar> then (if 0 < y then PInf else NInf) else Fin r)"
    using y0 by (simp add: round_to_def Let_def e_def [symmetric] m u_def [symmetric] r_def [symmetric])
  with err show ?thesis by auto
qed

lemma rd64_relative:
  assumes "2 powi (- 1022) \<le> \<bar>y\<bar>" and "rd64 y = Fin r"
  shows "\<bar>r - y\<bar> \<le> \<bar>y\<bar> / 9007199254740992"
proof -
  have "(2::rat) powi (- int 53) = 1 / 9007199254740992"
    by (simp add: power_int_minus_divide)
  with round_to_relative [of 53 "- 1022" y 1023] assms show ?thesis
    by (auto simp: rd64_def)
qed

lemma tiny_less_half: "(2::rat) powi (- 1022) < 1 / 2"
proof -
  have "(2::rat) powi (- 1022) \<le> 2 powi (- 2)" by (rule powi_mono) simp
  also have "(2::rat) powi (- 2) = 1 / 4" by (simp add: power_int_minus_divide)
  finally show ?thesis by simp
qed

text \<open>
  The position \<open>i * ratio\<close> that the loop computes, for an index \<open>i\<close> below the new
  length \<open>round(length / ratio)\<close>, is a finite number from 0 up to, but not
  including, the length of the input. \<open>M\<close> bounds the new length.
\<close>

lemma position_in_range:
  fixes L M i :: nat and r q :: rat
  assumes r: "0 < r" and M: "M \<le> 2 ^ 32" and L: "L < 2 ^ 53"
    and q: "rd64 (of_nat L / r) = Fin q"
    and i: "int i < \<lfloor>q + 1 / 2\<rfloor>" and n: "\<lfloor>q + 1 / 2\<rfloor> \<le> int M"
  shows "\<exists>p. rd64 (of_nat i * r) = Fin p \<and> 0 \<le> p \<and> p < of_nat L"
proof -
  define y where "y = (of_nat L :: rat) / r"
  define z where "z = (of_nat i :: rat) * r"
  have y0: "0 \<le> y" using r by (simp add: y_def)
  have z0: "0 \<le> z" using r by (simp add: z_def)
  have yr: "y * r = of_nat L" using r by (simp add: y_def)
  from i have "int i + 1 \<le> \<lfloor>q + 1 / 2\<rfloor>" by simp
  then have i1: "of_int (int i + 1) \<le> q + 1 / 2"
    by (simp only: le_floor_iff)
  then have iq: "of_nat i \<le> q - 1 / 2" by simp
  moreover have "0 \<le> (of_nat i :: rat)" by simp
  ultimately have qhalf: "1 / 2 \<le> q" by linarith
  from n have "\<lfloor>q + 1 / 2\<rfloor> < int M + 1" by simp
  then have "q + 1 / 2 < of_int (int M + 1)"
    by (simp only: floor_less_iff)
  then have qM: "q < of_nat M + 1 / 2" by simp
  have "(of_nat M :: rat) \<le> of_nat (2 ^ 32)"
    using M by (simp only: of_nat_le_iff)
  then have MC: "(of_nat M :: rat) \<le> 4294967296" by simp
  have ynorm: "2 powi (- 1022) \<le> \<bar>y\<bar>"
  proof (rule ccontr)
    assume "\<not> 2 powi (- 1022) \<le> \<bar>y\<bar>"
    then have "\<bar>y\<bar> \<le> 2 powi (- 1022)" by simp
    from rd64_bounded [of "- 1022" y] this obtain q' where "rd64 y = Fin q'" "\<bar>q'\<bar> \<le> 2 powi (- 1022)"
      by auto
    with q have "\<bar>q\<bar> \<le> 2 powi (- 1022)" by (simp add: y_def)
    with tiny_less_half qhalf show False by linarith
  qed
  from rd64_relative [OF ynorm] q have qy: "\<bar>q - y\<bar> \<le> \<bar>y\<bar> / 9007199254740992"
    by (simp add: y_def)
  have "of_nat i \<le> y * (1 + 1 / 9007199254740992) - 1 / 2"
    using iq qy y0 by (simp add: abs_le_iff field_simps; linarith)
  then have "of_nat i * r \<le> (y * (1 + 1 / 9007199254740992) - 1 / 2) * r"
    using r by (intro mult_right_mono) simp_all
  also have "\<dots> = y * r + (y * r) / 9007199254740992 - r / 2"
    by (simp add: algebra_simps)
  also have "\<dots> = of_nat L + of_nat L / 9007199254740992 - r / 2"
    by (simp only: yr)
  finally have A: "z \<le> of_nat L + of_nat L / 9007199254740992 - r / 2"
    by (simp only: z_def)
  have "y * (1 - 1 / 9007199254740992) < 4294967296 + 1 / 2"
    using qy qM MC y0 by (simp add: abs_le_iff field_simps; linarith)
  then have "(y * (1 - 1 / 9007199254740992)) * r < (4294967296 + 1 / 2) * r"
    using r by (intro mult_strict_right_mono) simp_all
  then have "y * r - (y * r) / 9007199254740992 < 4294967296 * r + r / 2"
    by (simp add: algebra_simps)
  then have B: "of_nat L - of_nat L / 9007199254740992 < 4294967296 * r + r / 2"
    by (simp only: yr)
  have Lpos: "0 < (of_nat L :: rat)"
  proof -
    from ynorm powi_pos [of "- 1022"] have "0 < \<bar>y\<bar>" by linarith
    then have "y \<noteq> 0" by simp
    then have "L \<noteq> 0" by (auto simp: y_def)
    then show ?thesis by simp
  qed
  then have L1: "1 \<le> (of_nat L :: rat)"
    by (metis of_nat_0_less_iff of_nat_1 of_nat_le_iff less_eq_Suc_le One_nat_def)
  have "(of_nat L :: rat) < of_nat (2 ^ 53)"
    using L by (simp only: of_nat_less_iff)
  then have Lb: "(of_nat L :: rat) < 9007199254740992" by simp
  have "z \<le> 2 powi 1023"
  proof -
    have "z \<le> 2 * 9007199254740992" using A Lb r by linarith
    also have "\<dots> = (2::rat) powi 54" by simp
    also have "\<dots> \<le> 2 powi 1023" by (rule powi_mono) simp
    finally show ?thesis .
  qed
  with z0 have "\<bar>z\<bar> \<le> 2 powi 1023" by simp
  from rd64_bounded [of 1023 z] this z0 obtain p where
    p: "rd64 z = Fin p" "0 \<le> p"
    by auto
  have "p < of_nat L"
  proof (cases "2 powi (- 1022) \<le> \<bar>z\<bar>")
    case True
    from rd64_relative [OF True p(1)] z0 have "p \<le> z + z / 9007199254740992"
      by linarith
    with A B Lpos show ?thesis by linarith
  next
    case False
    then have "\<bar>z\<bar> \<le> 2 powi (- 1022)" by simp
    from rd64_bounded [of "- 1022" z] this obtain p' where "rd64 z = Fin p'" "\<bar>p'\<bar> \<le> 2 powi (- 1022)"
      by auto
    with p(1) have "\<bar>p\<bar> \<le> 2 powi (- 1022)" by simp
    with tiny_less_half L1 show ?thesis by linarith
  qed
  with p show ?thesis by (auto simp: z_def)
qed
lemma round_to_nonneg:
  assumes "0 \<le> y"
  shows "round_to p emin emax y = PInf \<or> (\<exists>r. round_to p emin emax y = Fin r \<and> 0 \<le> r)"
proof (cases "y = 0")
  case True
  then show ?thesis by (simp add: round_to_def)
next
  case False
  with assms have ypos: "0 < y" by simp
  define u where "u = (2::rat) powi (max (ilog2 \<bar>y\<bar>) emin - int p + 1)"
  define r where "r = of_int (round_half_even (y / u)) * u"
  have upos: "0 < u" by (simp add: u_def)
  with ypos have "0 \<le> y / u" by simp
  then have "0 \<le> \<lfloor>y / u\<rfloor>" by (simp only: zero_le_floor)
  with round_half_even_floor [of "y / u"] have "0 \<le> round_half_even (y / u)" by linarith
  with upos have "0 \<le> r" by (simp add: r_def)
  moreover have "round_to p emin emax y = (if 2 powi (emax + 1) \<le> \<bar>r\<bar> then PInf else Fin r)"
    unfolding r_def u_def using ypos by (simp add: round_to_def Let_def)
  ultimately show ?thesis by auto
qed

lemma rd64_nonneg:
  assumes "0 \<le> y"
  shows "rd64 y = PInf \<or> (\<exists>r. rd64 y = Fin r \<and> 0 \<le> r)"
  unfolding rd64_def using assms by (rule round_to_nonneg)

text \<open>
  When the array of the new length can be allocated and is not empty, the ratio is a
  positive finite number and the new length is \<open>round(length / ratio)\<close> with a finite
  quotient.
\<close>

lemma new_length_positive:
  assumes "0 < f" and "0 < t"
    and "new_Float32Array M (js_round (fdiv (Fin (of_nat L)) (fdiv (Fin f) (Fin t)))) = Inr n"
    and "0 < n"
  shows "\<exists>r q. fdiv (Fin f) (Fin t) = Fin r \<and> 0 < r \<and> rd64 (of_nat L / r) = Fin q \<and>
           int n = \<lfloor>q + 1 / 2\<rfloor> \<and> n \<le> M"
proof -
  from assms(1,2) have "0 \<le> f / t" by simp
  from rd64_nonneg [OF this] assms(2) consider
      "fdiv (Fin f) (Fin t) = PInf"
    | r where "fdiv (Fin f) (Fin t) = Fin r" "0 \<le> r"
    by auto
  then show ?thesis
  proof cases
    case 1
    with assms(3,4) show ?thesis
      by (simp add: new_Float32Array_def trunc_def)
  next
    case (2 r)
    show ?thesis
    proof (cases "r = 0")
      case True
      with 2 assms(3,4) show ?thesis
        by (cases "L = 0") (simp_all add: new_Float32Array_def)
    next
      case False
      with 2 have rpos: "0 < r" by simp
      then have "0 \<le> of_nat L / r" by simp
      from rd64_nonneg [OF this] consider
          "rd64 (of_nat L / r) = PInf"
        | q where "rd64 (of_nat L / r) = Fin q" "0 \<le> q"
        by auto
      then show ?thesis
      proof cases
        case 1
        with 2 rpos assms(3) show ?thesis
          by (simp add: new_Float32Array_def)
      next
        case (2 q)
        define m where "m = \<lfloor>q + 1 / 2\<rfloor>"
        from 2(2) have m0: "0 \<le> m" by (simp add: m_def)
        have tr: "trunc (of_int m) = m" by (simp add: trunc_def)
        have rnd: "js_round (fdiv (Fin (of_nat L)) (fdiv (Fin f) (Fin t))) = Fin (of_int m)"
          using \<open>fdiv (Fin f) (Fin t) = Fin r\<close> rpos 2(1) by (simp add: m_def)
        from assms(3) have "nat m = n \<and> n \<le> M"
          unfolding rnd using m0
          by (auto simp: new_Float32Array_def tr split: if_splits)
        with m0 have "int n = m" "n \<le> M" by auto
        with \<open>fdiv (Fin f) (Fin t) = Fin r\<close> rpos 2(1) show ?thesis
          by (auto simp: m_def)
      qed
    qed
  qed
qed

text \<open>What the loop stores at \<open>i\<close>, given the position \<open>p\<close> in range.\<close>

lemma resample_at_value:
  assumes p: "fmul (Fin (of_nat i)) ratio = Fin p" "0 \<le> p" "p < of_nat (length s)"
    and L: "length s < 2 ^ 53"
  shows "\<exists>k. js_floor (fmul (Fin (of_nat i)) ratio) = Fin (of_nat k) \<and> k < length s \<and>
           resample_at s ratio i =
             (if k + 1 < length s
              then lerp (s ! k) (s ! (k + 1)) (fsub (fmul (Fin (of_nat i)) ratio) (Fin (of_nat k)))
              else fround (s ! k))"
proof -
  define k where "k = nat \<lfloor>p\<rfloor>"
  from p(2) have f0: "0 \<le> \<lfloor>p\<rfloor>" by (simp only: zero_le_floor)
  then have kf: "of_nat k = (of_int \<lfloor>p\<rfloor> :: rat)" by (simp add: k_def)
  from p(3) have "\<lfloor>p\<rfloor> < int (length s)" by (simp add: floor_less_iff)
  with f0 have kl: "k < length s" unfolding k_def by linarith
  have fl: "js_floor (fmul (Fin (of_nat i)) ratio) = Fin (of_nat k)"
    by (simp add: p(1) kf)
  have "\<bar>int (k + 1)\<bar> < 2 ^ 53" using kl L by simp
  from rd64_of_int [OF this] have "rd64 (of_nat k + 1) = Fin (of_nat k + 1)"
    by (simp add: add.commute)
  then have plus: "fadd (Fin (of_nat k)) (Fin 1) = Fin (of_nat (k + 1))" by simp
  have el: "element_at s (Fin (of_nat k)) = s ! k"
    using kl by simp
  have el1: "element_at s (Fin (of_nat (k + 1))) = s ! (k + 1)" if "k + 1 < length s"
    using that by (simp del: of_nat_Suc of_nat_add)
  have cmp: "num_less (Fin (of_nat (k + 1))) (Fin (of_nat (length s))) = (k + 1 < length s)"
    by (simp only: num_less.simps of_nat_less_iff)
  have "resample_at s ratio i =
      (if k + 1 < length s
       then lerp (s ! k) (s ! (k + 1)) (fsub (fmul (Fin (of_nat i)) ratio) (Fin (of_nat k)))
       else fround (s ! k))"
    unfolding resample_at_def Let_def fl plus cmp lerp_def
    using el el1 by (simp del: of_nat_Suc of_nat_add)
  with fl kl show ?thesis by blast
qed
text \<open>
  C6. \<open>M\<close> is the longest array the engine allocates (at most \<open>2\<^sup>3\<^sup>2\<close> elements), and
  the input is a \<open>Float32Array\<close> of at most that length. For equal rates (any number
  but NaN) \<open>resampleAudio\<close> returns its input. For different positive rates, when the
  array of the computed length \<open>round(length / (fromRate / toRate))\<close> is allocated,
  the function returns an array of that length; for every output index \<open>i\<close> the
  position \<open>i * ratio\<close> has an integer part \<open>k\<close> within the input, the output sample
  is the linear interpolation of the input samples \<open>k\<close> and \<open>k + 1\<close> at the fractional
  part of the position when \<open>k + 1\<close> is within the input, and it is the last input
  sample otherwise. All operations are those of the source, in double precision,
  with the store into the \<open>Float32Array\<close> rounding to single precision.
\<close>

theorem resampleAudio_result:
  assumes "M \<le> 2 ^ 32" and "length s \<le> M" and "\<forall>x\<in>set s. is_float32 x"
  shows "(r \<noteq> NaN \<longrightarrow> resampleAudio M s r r = Inr s) \<and>
         (0 < f \<and> 0 < t \<and> f \<noteq> t \<and>
          new_Float32Array M (js_round (fdiv (Fin (of_nat (length s))) (fdiv (Fin f) (Fin t)))) = Inr n \<longrightarrow>
            (\<exists>out. resampleAudio M s (Fin f) (Fin t) = Inr out \<and> length out = n \<and>
               (\<forall>i<n. \<exists>k. js_floor (fmul (Fin (of_nat i)) (fdiv (Fin f) (Fin t))) = Fin (of_nat k) \<and>
                   k < length s \<and>
                   (k + 1 < length s \<longrightarrow>
                      out ! i = lerp (s ! k) (s ! (k + 1))
                                  (fsub (fmul (Fin (of_nat i)) (fdiv (Fin f) (Fin t))) (Fin (of_nat k)))) \<and>
                   (k + 1 = length s \<longrightarrow> out ! i = last s))))"
proof (intro conjI impI)
  assume "r \<noteq> NaN"
  then show "resampleAudio M s r r = Inr s"
    by (simp add: resampleAudio_def num_eq_def)
next
  assume a: "0 < f \<and> 0 < t \<and> f \<noteq> t \<and>
      new_Float32Array M (js_round (fdiv (Fin (of_nat (length s))) (fdiv (Fin f) (Fin t)))) = Inr n"
  define ratio where "ratio = fdiv (Fin f) (Fin t)"
  define out where "out = map (resample_at s ratio) [0..<n]"
  from assms(1,2) have "length s \<le> 2 ^ 32" by simp
  then have L: "length s < 2 ^ 53" by simp
  from a have ne: "\<not> num_eq (Fin f) (Fin t)" by (simp add: num_eq_def)
  from a have al: "new_Float32Array M (js_round (fdiv (Fin (of_nat (length s))) ratio)) = Inr n"
    by (simp only: ratio_def)
  have "resampleAudio M s (Fin f) (Fin t) =
      (case new_Float32Array M (js_round (fdiv (Fin (of_nat (length s))) ratio)) of
         Inl e \<Rightarrow> Inl e
       | Inr n \<Rightarrow> Inr (map (resample_at s ratio) [0..<n]))"
    unfolding resampleAudio_def Let_def ratio_def using ne by (simp only: if_False)
  then have res: "resampleAudio M s (Fin f) (Fin t) = Inr out"
    by (simp only: al sum.case out_def)
  have len: "length out = n" by (simp add: out_def)
  have "\<exists>k. js_floor (fmul (Fin (of_nat i)) ratio) = Fin (of_nat k) \<and> k < length s \<and>
          (k + 1 < length s \<longrightarrow>
             out ! i = lerp (s ! k) (s ! (k + 1)) (fsub (fmul (Fin (of_nat i)) ratio) (Fin (of_nat k)))) \<and>
          (k + 1 = length s \<longrightarrow> out ! i = last s)" if i: "i < n" for i
  proof -
    from i have npos: "0 < n" by simp
    from a have alloc: "new_Float32Array M (js_round (fdiv (Fin (of_nat (length s))) (fdiv (Fin f) (Fin t)))) = Inr n"
      and f: "0 < f" and t: "0 < t"
      by blast+
    from new_length_positive [OF f t alloc npos] obtain rr q where
      rq: "ratio = Fin rr" "0 < rr" "rd64 (of_nat (length s) / rr) = Fin q" "int n = \<lfloor>q + 1 / 2\<rfloor>" "n \<le> M"
      unfolding ratio_def by blast
    from i rq(4) have i': "int i < \<lfloor>q + 1 / 2\<rfloor>" by simp
    from rq(4,5) have n': "\<lfloor>q + 1 / 2\<rfloor> \<le> int M" by simp
    from position_in_range [OF rq(2) assms(1) L rq(3) i' n'] obtain p where
      p: "rd64 (of_nat i * rr) = Fin p" "0 \<le> p" "p < of_nat (length s)"
      by blast
    have pm: "fmul (Fin (of_nat i)) ratio = Fin p"
      by (simp add: rq(1) p(1))
    from resample_at_value [OF pm p(2,3) L] obtain k where
      k: "js_floor (fmul (Fin (of_nat i)) ratio) = Fin (of_nat k)" "k < length s"
        "resample_at s ratio i =
           (if k + 1 < length s
            then lerp (s ! k) (s ! (k + 1)) (fsub (fmul (Fin (of_nat i)) ratio) (Fin (of_nat k)))
            else fround (s ! k))"
      by blast
    have oi: "out ! i = resample_at s ratio i"
      using i by (simp add: out_def)
    have last: "out ! i = last s" if "k + 1 = length s"
    proof -
      from that have ne: "s \<noteq> []" by auto
      from that have "s ! k = last s"
        using last_conv_nth [OF ne] by (simp add: that [symmetric])
      moreover from ne have "last s \<in> set s" by simp
      with assms(3) have "fround (last s) = last s" by (simp add: is_float32_def)
      ultimately show ?thesis using that by (simp add: oi k(3))
    qed
    from k(1,2) last show ?thesis by (auto simp: oi k(3))
  qed
  with res len show "\<exists>out. resampleAudio M s (Fin f) (Fin t) = Inr out \<and> length out = n \<and>
      (\<forall>i<n. \<exists>k. js_floor (fmul (Fin (of_nat i)) (fdiv (Fin f) (Fin t))) = Fin (of_nat k) \<and>
          k < length s \<and>
          (k + 1 < length s \<longrightarrow>
             out ! i = lerp (s ! k) (s ! (k + 1))
                         (fsub (fmul (Fin (of_nat i)) (fdiv (Fin f) (Fin t))) (Fin (of_nat k)))) \<and>
          (k + 1 = length s \<longrightarrow> out ! i = last s))"
    unfolding ratio_def by blast
qed
lemma rd32_exact:
  assumes "y = of_int m * 2 powi q" and "\<bar>m\<bar> < 2 ^ 24" and "- 149 \<le> q" and "q \<le> 104"
  shows "rd32 y = Fin y"
  unfolding rd32_def using assms
  by (intro round_to_exact [where m = m and q = q]) simp_all

theorem resampleAudio_result_witness:
  "(1000::nat) \<le> 2 ^ 32 \<and> length [Fin 0, Fin 1, Fin (1 / 2), Fin (1 / 4)] \<le> (1000::nat) \<and>
   is_float32 (Fin 0) \<and> is_float32 (Fin 1) \<and> is_float32 (Fin (1 / 2)) \<and> is_float32 (Fin (1 / 4)) \<and>
   Fin 48000 \<noteq> NaN \<and>
   resampleAudio 1000 [Fin 0, Fin 1, Fin (1 / 2), Fin (1 / 4)] (Fin 48000) (Fin 48000) =
     Inr [Fin 0, Fin 1, Fin (1 / 2), Fin (1 / 4)] \<and>
   (0::rat) < 48000 \<and> (0::rat) < 24000 \<and> (48000::rat) \<noteq> 24000 \<and>
   new_Float32Array 1000
     (js_round (fdiv (Fin (of_nat (length [Fin 0, Fin 1, Fin (1 / 2), Fin (1 / 4)])))
        (fdiv (Fin 48000) (Fin 24000)))) = Inr 2 \<and>
   (\<exists>out. resampleAudio 1000 [Fin 0, Fin 1, Fin (1 / 2), Fin (1 / 4)] (Fin 48000) (Fin 24000) = Inr out \<and>
      length out = 2)"
proof -
  let ?s = "[Fin 0, Fin 1, Fin (1 / 2), Fin (1 / 4)]"
  have m: "(1000::nat) \<le> 2 ^ 32" and l: "length ?s \<le> (1000::nat)"
    by simp_all
  have "rd32 0 = Fin 0"
    by (rule rd32_exact [where m = 0 and q = 0]) simp_all
  moreover have "rd32 1 = Fin 1"
    by (rule rd32_exact [where m = 1 and q = 0]) simp_all
  moreover have "rd32 (1 / 2) = Fin (1 / 2)"
    by (rule rd32_exact [where m = 1 and q = "- 1"]) (simp_all add: power_int_minus_divide)
  moreover have "rd32 (1 / 4) = Fin (1 / 4)"
    by (rule rd32_exact [where m = 1 and q = "- 2"]) (simp_all add: power_int_minus_divide)
  ultimately have fl: "\<forall>x\<in>set ?s. is_float32 x"
    by (simp add: is_float32_def)
  have two: "rd64 2 = Fin 2"
    using rd64_of_int [of 2] by simp
  have fl52: "\<lfloor>(5::rat) / 2\<rfloor> = 2"
    by (rule floor_unique) simp_all
  have al: "new_Float32Array 1000
     (js_round (fdiv (Fin (of_nat (length ?s))) (fdiv (Fin 48000) (Fin 24000)))) = Inr 2"
    by (simp add: two new_Float32Array_def trunc_def fl52)
  note t = resampleAudio_result [OF m l fl, where r = "Fin 48000" and f = 48000 and t = 24000 and n = 2]
  from t have id: "resampleAudio 1000 ?s (Fin 48000) (Fin 48000) = Inr ?s"
    by blast
  from t al have "\<exists>out. resampleAudio 1000 ?s (Fin 48000) (Fin 24000) = Inr out \<and> length out = 2"
    by auto
  moreover from fl have "is_float32 (Fin 0)" "is_float32 (Fin 1)" "is_float32 (Fin (1 / 2))"
      "is_float32 (Fin (1 / 4))"
    by simp_all
  ultimately show ?thesis using m l id al by simp
qed

text \<open>
  The array of the new length is allocated whenever the rates lie between 1 and
  \<open>2\<^sup>3\<^sup>1\<close> and the exact quotient \<open>length * toRate / fromRate\<close> is at most \<open>M - 1\<close>.
\<close>

lemma resampleAudio_allocates:
  fixes L M :: nat and f t :: rat
  assumes M: "M \<le> 2 ^ 32" and f: "1 \<le> f" "f \<le> 2 ^ 31" and t: "1 \<le> t" "t \<le> 2 ^ 31"
    and Lt: "of_nat L * t \<le> (of_nat M - 1) * f"
  shows "\<exists>n. new_Float32Array M (js_round (fdiv (Fin (of_nat L)) (fdiv (Fin f) (Fin t)))) = Inr n"
proof -
  define y0 where "y0 = f / t"
  have y0pos: "0 < y0" using f t by (simp add: y0_def)
  have "y0 \<le> f" using f t by (simp add: y0_def field_simps mult_le_cancel_left1)
  with f have y0hi: "y0 \<le> 2 powi 31" by simp
  have "1 / t \<le> y0" using f t by (simp add: y0_def field_simps)
  moreover have "1 / 2 ^ 31 \<le> 1 / t" using t by (simp add: field_simps)
  ultimately have y0lo: "1 / 2 ^ 31 \<le> y0" by linarith
  have "(2::rat) powi (- 1022) \<le> 2 powi (- 31)" by (rule powi_mono) simp
  also have "(2::rat) powi (- 31) = 1 / 2 ^ 31" by (simp add: power_int_minus_divide)
  finally have norm: "2 powi (- 1022) \<le> \<bar>y0\<bar>" using y0lo y0pos by simp
  from rd64_bounded [of 31 y0] y0hi y0pos obtain r where r: "rd64 y0 = Fin r"
    by auto
  from rd64_relative [OF norm r] y0pos have rlo: "y0 - y0 / 9007199254740992 \<le> r"
    by linarith
  with y0pos have rpos: "0 < r" by (simp add: field_simps; linarith)
  have ratio: "fdiv (Fin f) (Fin t) = Fin r"
    using t r by (simp add: y0_def)
  define y where "y = (of_nat L :: rat) / r"
  have y0': "0 \<le> y" using rpos by (simp add: y_def)
  have "of_nat L \<le> (of_nat M - 1) * y0"
    using Lt t by (simp add: y0_def field_simps)
  also have "(of_nat M - 1) * y0 \<le> (of_nat M - 1) * (r * (9007199254740992 / 9007199254740991))"
  proof (cases "M = 0")
    case True
    with Lt f t have "of_nat L * t \<le> - f" by simp
    moreover have "0 \<le> of_nat L * t" using t by simp
    ultimately show ?thesis using f by linarith
  next
    case False
    then have "0 \<le> (of_nat M :: rat) - 1"
      by (metis of_nat_1 of_nat_le_iff diff_ge_0_iff_ge less_eq_Suc_le neq0_conv One_nat_def)
    moreover have "y0 \<le> r * (9007199254740992 / 9007199254740991)"
      using rlo by (simp add: field_simps; linarith)
    ultimately show ?thesis by (rule mult_left_mono [rotated])
  qed
  finally have "of_nat L \<le> ((of_nat M - 1) * (9007199254740992 / 9007199254740991)) * r"
    by (simp add: mult_ac)
  then have yhi: "y \<le> (of_nat M - 1) * (9007199254740992 / 9007199254740991)"
    using rpos by (simp add: y_def pos_divide_le_eq)
  have "(of_nat M :: rat) \<le> of_nat (2 ^ 32)"
    using M by (simp only: of_nat_le_iff)
  then have MC: "(of_nat M :: rat) \<le> 4294967296" by simp
  have ylt: "y \<le> of_nat M - 1 + 1 / 1048576"
    using yhi MC by (simp add: field_simps; linarith)
  then have "y \<le> 2 powi 33" using MC by simp
  with y0' have "\<bar>y\<bar> \<le> 2 powi 33" by simp
  from rd64_bounded [of 33 y] this y0' obtain q where
    q: "rd64 y = Fin q" "\<bar>q - y\<bar> \<le> 2 powi (33 - 53)" "0 \<le> q"
    by auto
  have "(2::rat) powi (33 - 53) = 1 / 1048576" by (simp add: power_int_minus_divide)
  with q(2) have qy: "q \<le> y + 1 / 1048576" by linarith
  define m where "m = \<lfloor>q + 1 / 2\<rfloor>"
  from q(3) have m0: "0 \<le> m" by (simp add: m_def)
  have "q + 1 / 2 < of_int (int M)"
    using qy ylt by simp
  then have mM: "m < int M" by (simp only: m_def floor_less_iff)
  with M have "m \<le> 2 ^ 53 - 1" by simp
  have rnd: "js_round (fdiv (Fin (of_nat L)) (fdiv (Fin f) (Fin t))) = Fin (of_int m)"
    using ratio rpos q(1) by (simp add: m_def y_def)
  have "new_Float32Array M (Fin (of_int m)) = Inr (nat m)"
    using m0 mM \<open>m \<le> 2 ^ 53 - 1\<close> by (simp add: new_Float32Array_def trunc_def)
  then show ?thesis unfolding rnd by blast
qed

end
